theory Spec2Isabelle
  imports Main
begin

section \<open>Syntax nodes of the schema language\<close>

text \<open>
  The validator attaches syntax nodes to its diagnostics and searches the
  declarations of a type for the node of a field, an argument or an interface
  reference. Every node carries a location number, which tells two nodes with
  the same content apart.
\<close>

record named_type_node =
  ntn_loc :: nat
  ntn_name :: string

datatype type_node =
  NamedTypeRef named_type_node
  | ListTypeRef nat type_node
  | NonNullTypeRef nat type_node

record input_value_definition_node =
  ivd_loc :: nat
  ivd_name :: string
  ivd_type :: type_node

record field_definition_node =
  fd_loc :: nat
  fd_name :: string
  fd_type :: type_node
  fd_arguments :: "input_value_definition_node list option"

text \<open>The definition or extension of an Object or Interface type.\<close>

record type_definition_node =
  td_loc :: nat
  td_interfaces :: "named_type_node list option"
  td_fields :: "field_definition_node list option"

record operation_type_definition_node =
  otd_operation :: string
  otd_type :: named_type_node

record schema_definition_node =
  sd_loc :: nat
  sd_operationTypes :: "operation_type_definition_node list"

datatype ast_node =
  SchemaDefinitionNode schema_definition_node
  | TypeDefinitionNode type_definition_node
  | FieldDefinitionNode field_definition_node
  | InputValueDefinitionNode input_value_definition_node
  | NamedTypeNode named_type_node
  | TypeNode type_node
  | OtherNode nat

section \<open>Values\<close>

text \<open>
  A slot of the program holds \<open>undefined\<close>, \<open>null\<close> or an object. Objects are
  truthy; \<open>undefined\<close> and \<open>null\<close> are falsy, and reading a property of either
  throws a TypeError.
\<close>

datatype 'a nullable = Undefined | Null | Value 'a

datatype js_error = Error string | TypeError

text \<open>One statement after another: an exception of the first ends the sequence.\<close>

definition andThen :: "js_error + 'a \<Rightarrow> ('a \<Rightarrow> js_error + 'b) \<Rightarrow> js_error + 'b" where
  "andThen r f = (case r of Inl e \<Rightarrow> Inl e | Inr v \<Rightarrow> f v)"

fun truthy :: "'a nullable \<Rightarrow> bool" where
  "truthy (Value v) = True"
| "truthy Undefined = False"
| "truthy Null = False"

text \<open>String concatenation with a property that may be \<open>undefined\<close>, and the
  property key such a value names.\<close>

fun toPropertyKey :: "string option \<Rightarrow> string" where
  "toPropertyKey None = ''undefined''"
| "toPropertyKey (Some s) = s"

text \<open>The type of a field or of an argument: a named type under List and NonNull
  wrappers.\<close>

datatype gql_type =
  NamedType string
  | GraphQLList gql_type
  | GraphQLNonNull gql_type

record argument =
  arg_name :: string
  arg_type :: gql_type

record field =
  field_type :: gql_type
  field_args :: "argument list"

text \<open>
  An object the validator cannot look into: any value that is not an instance of
  the class asked for. \<open>o_string\<close> is the result of its method \<open>toString\<close>, absent
  when the object has no such method (an object without a prototype); \<open>o_name\<close>
  and \<open>o_astNode\<close> are its properties \<open>name\<close> and \<open>astNode\<close>, absent or not.
\<close>

record opaque =
  o_string :: "string option"
  o_name :: "string option"
  o_astNode :: "ast_node option"

text \<open>
  A Union type, with the names of its member types, and a type of one of the
  remaining kinds (Scalar, Enum, InputObject, List, NonNull). The type classes have
  a method \<open>toString\<close>; \<open>type_string\<close> is its result.
\<close>

record union_type =
  union_name :: string
  union_types :: "string list"
  union_astNode :: "ast_node option"

record other_type =
  type_string :: string
  type_astNode :: "ast_node option"

text \<open>
  Interface and Object types. Both have a name, a field map (in key order), a
  definition node and extension nodes; an Object type has also the list returned
  by \<open>getInterfaces()\<close>, whose elements may be anything.
\<close>

record composite_type =
  name :: string
  getFields :: "(string \<times> field) list"
  astNode :: "type_definition_node option"
  extensionASTNodes :: "type_definition_node list option"

datatype implemented =
  IsInterface composite_type
  | NotInterface opaque

record object_type = composite_type +
  getInterfaces :: "implemented nullable list"

datatype gql_value =
  GraphQLObjectType object_type
  | GraphQLInterfaceType composite_type
  | GraphQLUnionType union_type
  | OtherType other_type
  | NotAType opaque

datatype directive_value =
  GraphQLDirective opaque
  | NotADirective opaque

section \<open>Diagnostics and the schema\<close>

text \<open>
  Modelled from the spec: the constructor of a diagnostic is not part of the
  validator's source. A diagnostic is a message and the array of nodes handed to
  the constructor; an array can hold absent entries.
\<close>

record diagnostic =
  message :: string
  nodes :: "ast_node option list"

definition GraphQLError :: "string \<Rightarrow> ast_node option list \<Rightarrow> diagnostic" where
  "GraphQLError msg ns = \<lparr>message = msg, nodes = ns\<rparr>"

record schema =
  getQueryType :: "gql_value nullable"
  getMutationType :: "gql_value nullable"
  getSubscriptionType :: "gql_value nullable"
  getDirectives :: "directive_value nullable list"
  getTypeMap :: "(string \<times> gql_value nullable) list"
  schemaAstNode :: "schema_definition_node option"
  validationErrors :: "diagnostic list option"

text \<open>What is handed to \<open>validateSchema\<close>: a falsy value, an instance of the
  schema class, or another truthy value, with the name of its prototype's
  constructor (if it has one) and the result of its method \<open>toString\<close> (if it has
  one).\<close>

datatype schema_input =
  Falsy
  | NotSchema "string option" "string option"
  | GraphQLSchema schema

text \<open>The two comparators of \<open>utilities/typeComparators\<close>, taken as parameters.\<close>

record comparators =
  isTypeSubTypeOf :: "schema \<Rightarrow> gql_type \<Rightarrow> gql_type \<Rightarrow> bool"
  isEqualType :: "gql_type \<Rightarrow> gql_type \<Rightarrow> bool"

section \<open>Rendering\<close>

text \<open>
  Modelled from the spec: the rendered name of a type (the \<open>toString\<close> methods of
  the type classes are not part of the validator's source). A named type renders as
  its name, a List in brackets, a NonNull with an exclamation mark.
\<close>

fun typeToString :: "gql_type \<Rightarrow> string" where
  "typeToString (NamedType n) = n"
| "typeToString (GraphQLList t) = ''['' @ typeToString t @ '']''"
| "typeToString (GraphQLNonNull t) = typeToString t @ ''!''"

text \<open>
  Modelled from the spec: the type classes are not part of the validator's source;
  a type renders as its name. Any other object renders as the result of its method
  \<open>toString\<close>, if it has the method.
\<close>

fun valueToString :: "gql_value \<Rightarrow> string option" where
  "valueToString (GraphQLObjectType t) = Some (name t)"
| "valueToString (GraphQLInterfaceType t) = Some (name t)"
| "valueToString (GraphQLUnionType u) = Some (union_name u)"
| "valueToString (OtherType b) = Some (type_string b)"
| "valueToString (NotAType b) = o_string b"

fun implementedToString :: "implemented \<Rightarrow> string option" where
  "implementedToString (IsInterface t) = Some (name t)"
| "implementedToString (NotInterface b) = o_string b"

fun directiveToString :: "directive_value \<Rightarrow> string option" where
  "directiveToString (GraphQLDirective b) = o_string b"
| "directiveToString (NotADirective b) = o_string b"

text \<open>
  The built-in \<open>String\<close>: \<open>undefined\<close> and \<open>null\<close> have fixed renderings, an object
  is rendered by its method \<open>toString\<close>, and \<open>String\<close> throws a TypeError when the
  object has none.
\<close>

fun String :: "('a \<Rightarrow> string option) \<Rightarrow> 'a nullable \<Rightarrow> js_error + string" where
  "String f Undefined = Inr ''undefined''"
| "String f Null = Inr ''null''"
| "String f (Value v) = (case f v of None \<Rightarrow> Inl TypeError | Some r \<Rightarrow> Inr r)"

section \<open>The validation context\<close>

record SchemaValidationContext =
  errors :: "diagnostic list"

definition newSchemaValidationContext :: SchemaValidationContext where
  "newSchemaValidationContext = \<lparr>errors = []\<rparr>"

text \<open>The second argument of \<open>reportError\<close>: one node (or none), or an array.\<close>

datatype nodes_arg =
  Single "ast_node option"
  | Many "ast_node option list"

definition reportError :: "SchemaValidationContext \<Rightarrow> string \<Rightarrow> nodes_arg \<Rightarrow> SchemaValidationContext" where
  "reportError context msg ns =
     (let ns' = filter (\<lambda>n. n \<noteq> None) (case ns of Many arr \<Rightarrow> arr | Single n \<Rightarrow> [n])
      in context\<lparr>errors := errors context @ [GraphQLError msg ns']\<rparr>)"

definition getErrors :: "SchemaValidationContext \<Rightarrow> diagnostic list" where
  "getErrors context = errors context"

section \<open>Locating nodes\<close>

definition declarationNodes :: "'a composite_type_scheme \<Rightarrow> type_definition_node option list" where
  "declarationNodes t =
     [astNode t] @ (case extensionASTNodes t of None \<Rightarrow> [] | Some es \<Rightarrow> map Some es)"

definition getAllImplementsInterfaceNode :: "'a composite_type_scheme \<Rightarrow> string option \<Rightarrow> named_type_node list" where
  "getAllImplementsInterfaceNode t ifaceName =
     concat (map (\<lambda>a. case a of None \<Rightarrow> []
                       | Some n \<Rightarrow> (case td_interfaces n of None \<Rightarrow> []
                                    | Some is \<Rightarrow> filter (\<lambda>node. Some (ntn_name node) = ifaceName) is))
                 (declarationNodes t))"

definition getImplementsInterfaceNode :: "'a composite_type_scheme \<Rightarrow> string option \<Rightarrow> named_type_node option" where
  "getImplementsInterfaceNode t ifaceName =
     (case getAllImplementsInterfaceNode t ifaceName of [] \<Rightarrow> None | n # _ \<Rightarrow> Some n)"

fun firstFieldNode :: "type_definition_node option list \<Rightarrow> string \<Rightarrow> field_definition_node option" where
  "firstFieldNode [] fieldName = None"
| "firstFieldNode (a # rest) fieldName =
     (case (case a of None \<Rightarrow> None
            | Some n \<Rightarrow> (case td_fields n of None \<Rightarrow> None
                         | Some fs \<Rightarrow> find (\<lambda>node. fd_name node = fieldName) fs)) of
        Some fieldNode \<Rightarrow> Some fieldNode
      | None \<Rightarrow> firstFieldNode rest fieldName)"

definition getFieldNode :: "'a composite_type_scheme \<Rightarrow> string \<Rightarrow> field_definition_node option" where
  "getFieldNode t fieldName = firstFieldNode (declarationNodes t) fieldName"

definition getFieldTypeNode :: "'a composite_type_scheme \<Rightarrow> string \<Rightarrow> type_node option" where
  "getFieldTypeNode t fieldName =
     (case getFieldNode t fieldName of None \<Rightarrow> None | Some fieldNode \<Rightarrow> Some (fd_type fieldNode))"

definition getFieldArgNode :: "'a composite_type_scheme \<Rightarrow> string \<Rightarrow> string \<Rightarrow> input_value_definition_node option" where
  "getFieldArgNode t fieldName argName =
     (case getFieldNode t fieldName of None \<Rightarrow> None
      | Some fieldNode \<Rightarrow> (case fd_arguments fieldNode of None \<Rightarrow> None
                          | Some as \<Rightarrow> find (\<lambda>node. ivd_name node = argName) as))"

definition getFieldArgTypeNode :: "'a composite_type_scheme \<Rightarrow> string \<Rightarrow> string \<Rightarrow> type_node option" where
  "getFieldArgTypeNode t fieldName argName =
     (case getFieldArgNode t fieldName argName of None \<Rightarrow> None
      | Some fieldArgNode \<Rightarrow> Some (ivd_type fieldArgNode))"

text \<open>The property \<open>astNode\<close> of a value held in a root slot or in the type map.\<close>

fun valueAstNode :: "gql_value \<Rightarrow> ast_node option" where
  "valueAstNode (GraphQLObjectType t) = map_option TypeDefinitionNode (astNode t)"
| "valueAstNode (GraphQLInterfaceType t) = map_option TypeDefinitionNode (astNode t)"
| "valueAstNode (GraphQLUnionType u) = union_astNode u"
| "valueAstNode (OtherType b) = type_astNode b"
| "valueAstNode (NotAType b) = o_astNode b"

fun directiveAstNode :: "directive_value \<Rightarrow> ast_node option" where
  "directiveAstNode (GraphQLDirective b) = o_astNode b"
| "directiveAstNode (NotADirective b) = o_astNode b"

text \<open>\<open>v && v.astNode\<close>: a falsy \<open>v\<close> is the result, and it is no node.\<close>

fun andAstNode :: "('a \<Rightarrow> ast_node option) \<Rightarrow> 'a nullable \<Rightarrow> ast_node option" where
  "andAstNode f (Value v) = f v"
| "andAstNode f Undefined = None"
| "andAstNode f Null = None"

definition getOperationTypeNode :: "schema \<Rightarrow> gql_value nullable \<Rightarrow> string \<Rightarrow> ast_node option" where
  "getOperationTypeNode s t operation =
     (let operationTypeNode =
            (case schemaAstNode s of None \<Rightarrow> None
             | Some a \<Rightarrow> find (\<lambda>operationType. otd_operation operationType = operation)
                              (sd_operationTypes a))
      in case operationTypeNode of
           Some n \<Rightarrow> Some (NamedTypeNode (otd_type n))
         | None \<Rightarrow> andAstNode valueAstNode t)"

section \<open>Root types and directives\<close>

fun isObjectType :: "gql_value nullable \<Rightarrow> bool" where
  "isObjectType (Value (GraphQLObjectType t)) = True"
| "isObjectType v = False"

text \<open>
  The arguments of \<open>reportError\<close> are evaluated before the call: when \<open>String\<close>
  throws while the message is built, nothing is reported and the exception leaves
  the function.
\<close>

definition validateRootTypes :: "SchemaValidationContext \<Rightarrow> schema \<Rightarrow> js_error + SchemaValidationContext" where
  "validateRootTypes context s =
     andThen
       (if \<not> truthy (getQueryType s) then
          Inr (reportError context ''Query root type must be provided.''
                 (Single (map_option SchemaDefinitionNode (schemaAstNode s))))
        else if \<not> isObjectType (getQueryType s) then
          andThen (String valueToString (getQueryType s))
            (\<lambda>rendered.
               Inr (reportError context
                      (''Query root type must be Object type but got: '' @ rendered @ ''.'')
                      (Single (getOperationTypeNode s (getQueryType s) ''query''))))
        else Inr context)
       (\<lambda>context1.
          andThen
            (if truthy (getMutationType s) \<and> \<not> isObjectType (getMutationType s) then
               andThen (String valueToString (getMutationType s))
                 (\<lambda>rendered.
                    Inr (reportError context1
                           (''Mutation root type must be Object type if provided but got: ''
                              @ (rendered @ ''.''))
                           (Single (getOperationTypeNode s (getMutationType s) ''mutation''))))
             else Inr context1)
            (\<lambda>context2.
               if truthy (getSubscriptionType s) \<and> \<not> isObjectType (getSubscriptionType s) then
                 andThen (String valueToString (getSubscriptionType s))
                   (\<lambda>rendered.
                      Inr (reportError context2
                             (''Subscription root type must be Object type if provided but got: ''
                                @ (rendered @ ''.''))
                             (Single (getOperationTypeNode s (getSubscriptionType s)
                                        ''subscription''))))
               else Inr context2))"

fun isDirective :: "directive_value nullable \<Rightarrow> bool" where
  "isDirective (Value (GraphQLDirective b)) = True"
| "isDirective v = False"

definition validateDirective ::
  "directive_value nullable \<Rightarrow> SchemaValidationContext \<Rightarrow> js_error + SchemaValidationContext" where
  "validateDirective directive context =
     (if \<not> isDirective directive then
        andThen (String directiveToString directive)
          (\<lambda>rendered.
             Inr (reportError context
                    (''Expected directive but got: '' @ rendered @ ''.'')
                    (Single (andAstNode directiveAstNode directive))))
      else Inr context)"

text \<open>\<open>forEach\<close> with a callback that can throw: the first exception ends the loop.\<close>

fun forEach :: "('a \<Rightarrow> 's \<Rightarrow> js_error + 's) \<Rightarrow> 'a list \<Rightarrow> 's \<Rightarrow> js_error + 's" where
  "forEach f [] st = Inr st"
| "forEach f (x # xs) st = (case f x st of Inl e \<Rightarrow> Inl e | Inr st' \<Rightarrow> forEach f xs st')"

definition validateDirectives :: "SchemaValidationContext \<Rightarrow> schema \<Rightarrow> js_error + SchemaValidationContext" where
  "validateDirectives context s = forEach validateDirective (getDirectives s) context"

section \<open>Interface conformance\<close>

definition dq :: string where
  "dq = [CHR 0x22]"

fun isNonNull :: "gql_type \<Rightarrow> bool" where
  "isNonNull (GraphQLNonNull t) = True"
| "isNonNull t = False"

text \<open>The callback of the loop over the arguments of the interface field.\<close>

definition validateInterfaceArg ::
  "comparators \<Rightarrow> object_type \<Rightarrow> composite_type \<Rightarrow> string \<Rightarrow> field \<Rightarrow> argument
     \<Rightarrow> SchemaValidationContext \<Rightarrow> SchemaValidationContext" where
  "validateInterfaceArg cmp object iface fieldName objectField ifaceArg context =
     (let argName = arg_name ifaceArg in
      case find (\<lambda>arg. arg_name arg = argName) (field_args objectField) of
        None \<Rightarrow>
          reportError context
            (name iface @ ''.'' @ fieldName @ '' expects argument '' @ dq @ argName @ dq
               @ '' but '' @ (name object @ ''.'' @ fieldName @ '' does not provide it.''))
            (Many [map_option InputValueDefinitionNode (getFieldArgNode iface fieldName argName),
                   map_option FieldDefinitionNode (getFieldNode object fieldName)])
      | Some objectArg \<Rightarrow>
          if \<not> isEqualType cmp (arg_type ifaceArg) (arg_type objectArg) then
            reportError context
              (name iface @ ''.'' @ fieldName @ ''('' @ argName @ '':) expects type ''
                 @ (dq @ typeToString (arg_type ifaceArg) @ dq @ '' but '')
                 @ (name object @ ''.'' @ fieldName @ ''('' @ argName @ '':) is type '')
                 @ (dq @ typeToString (arg_type objectArg) @ dq @ ''.''))
              (Many [map_option TypeNode (getFieldArgTypeNode iface fieldName argName),
                     map_option TypeNode (getFieldArgTypeNode object fieldName argName)])
          else context)"

text \<open>The callback of the loop over the arguments of the object field.\<close>

definition validateObjectArg ::
  "object_type \<Rightarrow> composite_type \<Rightarrow> string \<Rightarrow> field \<Rightarrow> argument
     \<Rightarrow> SchemaValidationContext \<Rightarrow> SchemaValidationContext" where
  "validateObjectArg object iface fieldName ifaceField objectArg context =
     (let argName = arg_name objectArg;
          ifaceArg = find (\<lambda>arg. arg_name arg = argName) (field_args ifaceField)
      in if ifaceArg = None \<and> isNonNull (arg_type objectArg) then
           reportError context
             (name object @ ''.'' @ fieldName @ ''('' @ argName @ '':) is of required type ''
                @ (dq @ typeToString (arg_type objectArg) @ dq
                     @ '' but is not also provided by the '')
                @ (''interface '' @ name iface @ ''.'' @ fieldName @ ''.''))
             (Many [map_option TypeNode (getFieldArgTypeNode object fieldName argName),
                    map_option FieldDefinitionNode (getFieldNode iface fieldName)])
         else context)"

text \<open>The callback of the loop over the fields of the interface: an entry of its
  field map, the key and the field.\<close>

definition validateInterfaceField ::
  "comparators \<Rightarrow> schema \<Rightarrow> object_type \<Rightarrow> composite_type \<Rightarrow> string \<times> field
     \<Rightarrow> SchemaValidationContext \<Rightarrow> SchemaValidationContext" where
  "validateInterfaceField cmp s object iface entry context =
     (let fieldName = fst entry; ifaceField = snd entry in
      case map_of (getFields object) fieldName of
        None \<Rightarrow>
          reportError context
            (dq @ name iface @ dq @ '' expects field '' @ dq @ fieldName @ dq @ '' but ''
               @ dq @ name object @ dq @ '' '' @ ''does not provide it.'')
            (Many [map_option FieldDefinitionNode (getFieldNode iface fieldName),
                   map_option TypeDefinitionNode (astNode object)])
      | Some objectField \<Rightarrow>
          (let context1 =
                 (if \<not> isTypeSubTypeOf cmp s (field_type objectField) (field_type ifaceField) then
                    reportError context
                      (name iface @ ''.'' @ fieldName @ '' expects type ''
                         @ (dq @ typeToString (field_type ifaceField) @ dq @ '' but ''
                              @ name object @ ''.'' @ fieldName @ '' is '')
                         @ (''type '' @ dq @ typeToString (field_type objectField) @ dq @ ''.''))
                      (Many [map_option TypeNode (getFieldTypeNode iface fieldName),
                             map_option TypeNode (getFieldTypeNode object fieldName)])
                  else context);
               context2 =
                 fold (validateInterfaceArg cmp object iface fieldName objectField)
                   (field_args ifaceField) context1
           in fold (validateObjectArg object iface fieldName ifaceField)
                (field_args objectField) context2))"

text \<open>The property \<open>name\<close> of an element of the interface list.\<close>

fun implementedName :: "implemented \<Rightarrow> string option" where
  "implementedName (IsInterface i) = Some (name i)"
| "implementedName (NotInterface b) = o_name b"

definition validateObjectImplementsInterface ::
  "comparators \<Rightarrow> SchemaValidationContext \<Rightarrow> schema \<Rightarrow> object_type \<Rightarrow> implemented
     \<Rightarrow> js_error + SchemaValidationContext" where
  "validateObjectImplementsInterface cmp context s object iface =
     (case iface of
        NotInterface b \<Rightarrow>
          andThen (String implementedToString (Value iface))
            (\<lambda>rendered.
               Inr (reportError context
                      (name object @ '' must only implement Interface types, it cannot ''
                         @ (''implement '' @ rendered @ ''.''))
                      (Single (map_option NamedTypeNode
                                 (getImplementsInterfaceNode object (implementedName iface))))))
      | IsInterface i \<Rightarrow> Inr (fold (validateInterfaceField cmp s object i) (getFields i) context))"

section \<open>The type map\<close>

text \<open>
  The callback of the loop over the interfaces of an Object type. Its state is the
  context and the names recorded in \<open>implementedTypeNames\<close>. Reading \<open>iface.name\<close>
  throws when the element is \<open>undefined\<close> or \<open>null\<close>. The name is recorded before
  the conformance check is called; when the check throws, the loop ends with it.
\<close>

definition validateInterface ::
  "comparators \<Rightarrow> schema \<Rightarrow> object_type \<Rightarrow> implemented nullable
     \<Rightarrow> SchemaValidationContext \<times> string set
     \<Rightarrow> js_error + (SchemaValidationContext \<times> string set)" where
  "validateInterface cmp s t iface st =
     (case iface of
        Undefined \<Rightarrow> Inl TypeError
      | Null \<Rightarrow> Inl TypeError
      | Value i \<Rightarrow>
          (let context = fst st; implementedTypeNames = snd st;
               context1 =
                 (if toPropertyKey (implementedName i) \<in> implementedTypeNames then
                    reportError context
                      (name t @ '' must declare it implements ''
                         @ toPropertyKey (implementedName i) @ '' only once.'')
                      (Many (map (\<lambda>n. Some (NamedTypeNode n))
                               (getAllImplementsInterfaceNode t (implementedName i))))
                  else context)
           in andThen (validateObjectImplementsInterface cmp context1 s t i)
                (\<lambda>context2.
                   Inr (context2,
                        insert (toPropertyKey (implementedName i)) implementedTypeNames))))"

fun isType :: "gql_value nullable \<Rightarrow> bool" where
  "isType (Value (NotAType b)) = False"
| "isType (Value v) = True"
| "isType v = False"

text \<open>The callback of the loop over the keys of the type map: an entry of the map.\<close>

definition validateType ::
  "comparators \<Rightarrow> schema \<Rightarrow> string \<times> gql_value nullable
     \<Rightarrow> SchemaValidationContext \<Rightarrow> js_error + SchemaValidationContext" where
  "validateType cmp s entry context =
     (let t = snd entry in
      andThen
        (if \<not> isType t then
           andThen (String valueToString t)
             (\<lambda>rendered.
                Inr (reportError context
                       (''Expected GraphQL type but got: '' @ rendered @ ''.'')
                       (Single (andAstNode valueAstNode t))))
         else Inr context)
        (\<lambda>context1.
           case t of
             Value (GraphQLObjectType ot) \<Rightarrow>
               andThen (forEach (validateInterface cmp s ot) (getInterfaces ot) (context1, {}))
                 (\<lambda>st. Inr (fst st))
           | _ \<Rightarrow> Inr context1))"

definition validateTypes ::
  "comparators \<Rightarrow> SchemaValidationContext \<Rightarrow> schema \<Rightarrow> js_error + SchemaValidationContext" where
  "validateTypes cmp context s = forEach (validateType cmp s) (getTypeMap s) context"

section \<open>The entry points\<close>

definition crossRealmMessage :: string where
  "crossRealmMessage =
     ''Cannot use a GraphQLSchema from another module or realm.'' @ [CHR 0x0A, CHR 0x0A]
     @ ''Ensure that there is only one instance of '' @ dq @ ''graphql'' @ dq
     @ '' in the node_modules'' @ [CHR 0x0A]
     @ ''directory. If different versions of '' @ dq @ ''graphql'' @ dq
     @ '' are the dependencies of other'' @ [CHR 0x0A]
     @ ''relied on modules, use '' @ dq @ ''resolutions'' @ dq
     @ '' to ensure only one version is installed.'' @ [CHR 0x0A, CHR 0x0A]
     @ ''https://yarnpkg.com/en/docs/selective-version-resolutions'' @ [CHR 0x0A, CHR 0x0A]
     @ ''Duplicate '' @ dq @ ''graphql'' @ dq
     @ '' modules cannot be used at the same time since different'' @ [CHR 0x0A]
     @ ''versions may have different capabilities and behavior. The data from one''
     @ [CHR 0x0A]
     @ ''version used in the function from another could produce confusing and''
     @ [CHR 0x0A] @ ''spurious results.''"

text \<open>
  \<open>validateSchema\<close> returns the diagnostics and the schema, whose slot
  \<open>__validationErrors\<close> it may have written; when it throws, nothing was written.
\<close>

definition validateSchema ::
  "comparators \<Rightarrow> schema_input \<Rightarrow> js_error + (diagnostic list \<times> schema)" where
  "validateSchema cmp input =
     (case input of
        Falsy \<Rightarrow> Inl (Error ''Must provide schema.'')
      | NotSchema constructorName rendering \<Rightarrow>
          (case constructorName of
             None \<Rightarrow> Inl TypeError
           | Some n \<Rightarrow>
               if n = ''GraphQLSchema'' then Inl (Error crossRealmMessage)
               else (case rendering of
                       None \<Rightarrow> Inl TypeError
                     | Some rendered \<Rightarrow>
                         Inl (Error (''Schema must be an instance of GraphQLSchema. ''
                                       @ (''Received: '' @ rendered)))))
      | GraphQLSchema s \<Rightarrow>
          (case validationErrors s of
             Some stored \<Rightarrow> Inr (stored, s)
           | None \<Rightarrow>
               andThen (validateRootTypes newSchemaValidationContext s)
                 (\<lambda>context1.
                    andThen (validateDirectives context1 s)
                      (\<lambda>context2.
                         andThen (validateTypes cmp context2 s)
                           (\<lambda>context3.
                              (let errs = getErrors context3
                               in Inr (errs, s\<lparr>validationErrors := Some errs\<rparr>)))))))"

text \<open>\<open>Array.prototype.join\<close> on an array of strings.\<close>

fun join :: "string list \<Rightarrow> string \<Rightarrow> string" where
  "join [] sep = []"
| "join [x] sep = x"
| "join (x # y # ys) sep = x @ sep @ join (y # ys) sep"

text \<open>\<open>assertValidSchema\<close> returns nothing; the result is the schema as
  \<open>validateSchema\<close> left it.\<close>

definition assertValidSchema :: "comparators \<Rightarrow> schema_input \<Rightarrow> js_error + schema" where
  "assertValidSchema cmp input =
     (case validateSchema cmp input of
        Inl e \<Rightarrow> Inl e
      | Inr r \<Rightarrow>
          if length (fst r) \<noteq> 0 then
            Inl (Error (join (map message (fst r)) [CHR 0x0A, CHR 0x0A]))
          else Inr (snd r))"

section \<open>Auxiliary notions\<close>

text \<open>A function on contexts that only adds diagnostics, the same ones whatever
  the context holds already.\<close>

definition appends :: "(SchemaValidationContext \<Rightarrow> SchemaValidationContext) \<Rightarrow> bool" where
  "appends f = (\<forall>c. errors (f c) = errors c @ errors (f newSchemaValidationContext))"

text \<open>A function on contexts that can throw, and adds diagnostics as above when it
  returns; whether it throws does not depend on the context.\<close>

definition appendsE :: "(SchemaValidationContext \<Rightarrow> js_error + SchemaValidationContext) \<Rightarrow> bool" where
  "appendsE f = (\<forall>c. f c = (case f newSchemaValidationContext of
                               Inl e \<Rightarrow> Inl e
                             | Inr c' \<Rightarrow> Inr \<lparr>errors = errors c @ errors c'\<rparr>))"

text \<open>The key under which the loop over the interfaces records an element, the
  diagnostic it reports for an element whose key is recorded already, and the
  diagnostics that the conformance check of an element adds when it returns.\<close>

definition interfaceKey :: "implemented \<Rightarrow> string" where
  "interfaceKey i = toPropertyKey (implementedName i)"

definition onlyOnceError :: "object_type \<Rightarrow> implemented \<Rightarrow> diagnostic" where
  "onlyOnceError t i =
     GraphQLError
       (name t @ '' must declare it implements '' @ toPropertyKey (implementedName i)
          @ '' only once.'')
       (map (\<lambda>n. Some (NamedTypeNode n)) (getAllImplementsInterfaceNode t (implementedName i)))"

definition conformanceErrors ::
  "comparators \<Rightarrow> schema \<Rightarrow> object_type \<Rightarrow> implemented \<Rightarrow> diagnostic list" where
  "conformanceErrors cmp s t i =
     (case validateObjectImplementsInterface cmp newSchemaValidationContext s t i of
        Inl e \<Rightarrow> []
      | Inr c \<Rightarrow> errors c)"

text \<open>An element of an interface list that \<open>String\<close> can render.\<close>

definition renders :: "implemented \<Rightarrow> bool" where
  "renders i = (implementedToString i \<noteq> None)"

text \<open>A diagnostic whose array of nodes holds no absent entry, and a diagnostic
  that carries no node.\<close>

definition present :: "diagnostic \<Rightarrow> bool" where
  "present d = (None \<notin> set (nodes d))"

definition unlocated :: "diagnostic \<Rightarrow> bool" where
  "unlocated d = (nodes d = [])"

text \<open>
  A type built without syntax information has no definition node and no extension
  nodes; a schema built without syntax information has no definition node, and
  none of the values it holds has one.
\<close>

definition withoutSyntax :: "'a composite_type_scheme \<Rightarrow> bool" where
  "withoutSyntax t =
     (astNode t = None \<and> (case extensionASTNodes t of None \<Rightarrow> True | Some es \<Rightarrow> es = []))"

definition programmatic :: "schema \<Rightarrow> bool" where
  "programmatic s =
     (schemaAstNode s = None
      \<and> andAstNode valueAstNode (getQueryType s) = None
      \<and> andAstNode valueAstNode (getMutationType s) = None
      \<and> andAstNode valueAstNode (getSubscriptionType s) = None
      \<and> list_all (\<lambda>d. andAstNode directiveAstNode d = None) (getDirectives s)
      \<and> list_all
           (\<lambda>entry. andAstNode valueAstNode (snd entry) = None
                     \<and> (case snd entry of
                           Value (GraphQLObjectType ot) \<Rightarrow>
                             withoutSyntax ot
                             \<and> list_all (\<lambda>i. case i of Value (IsInterface it) \<Rightarrow> withoutSyntax it
                                                | _ \<Rightarrow> True)
                                  (getInterfaces ot)
                         | _ \<Rightarrow> True))
           (getTypeMap s))"

text \<open>
  When the checks throw. A root slot, a directive or an entry of the type map makes
  its check throw when the check renders it and \<open>String\<close> cannot; an Object type of
  the type map makes the walker throw when one of its interfaces is \<open>undefined\<close>
  or \<open>null\<close>, or is not an Interface and cannot be rendered.
\<close>

definition unrenderedRoot :: "gql_value nullable \<Rightarrow> bool" where
  "unrenderedRoot v =
     (truthy v \<and> \<not> isObjectType v \<and> String valueToString v = Inl TypeError)"

definition unrenderedDirective :: "directive_value nullable \<Rightarrow> bool" where
  "unrenderedDirective d = (\<not> isDirective d \<and> String directiveToString d = Inl TypeError)"

definition interfaceThrows :: "implemented nullable \<Rightarrow> bool" where
  "interfaceThrows i = (case i of Value v \<Rightarrow> \<not> renders v | _ \<Rightarrow> True)"

definition entryThrows :: "string \<times> gql_value nullable \<Rightarrow> bool" where
  "entryThrows entry =
     ((\<not> isType (snd entry) \<and> String valueToString (snd entry) = Inl TypeError)
      \<or> (case snd entry of
            Value (GraphQLObjectType ot) \<Rightarrow> list_ex interfaceThrows (getInterfaces ot)
          | _ \<Rightarrow> False))"

definition checksThrow :: "schema \<Rightarrow> bool" where
  "checksThrow s =
     (unrenderedRoot (getQueryType s) \<or> unrenderedRoot (getMutationType s)
      \<or> unrenderedRoot (getSubscriptionType s)
      \<or> list_ex unrenderedDirective (getDirectives s)
      \<or> list_ex entryThrows (getTypeMap s))"

section \<open>Comparators and example values\<close>

text \<open>
  Modelled from the spec: the two comparators of \<open>utilities/typeComparators\<close>, which
  are not part of the validator's source. Equality is structural equality over type
  descriptions, wrapper nesting included. A candidate is a subtype of a required
  type when they are identical, when the List and NonNull wrappers are compatible,
  when the candidate is an Object type that implements the required Interface, or
  when it is a member of the required Union. The checkers take the comparators as
  a parameter; these two serve as an instance in the examples.
\<close>

definition objectImplements :: "schema \<Rightarrow> string \<Rightarrow> string \<Rightarrow> bool" where
  "objectImplements s a b =
     (case map_of (getTypeMap s) a of
        Some (Value (GraphQLObjectType ot)) \<Rightarrow>
          list_ex (\<lambda>i. case i of Value (IsInterface t) \<Rightarrow> name t = b | _ \<Rightarrow> False) (getInterfaces ot)
      | _ \<Rightarrow> False)"

definition memberOfUnion :: "schema \<Rightarrow> string \<Rightarrow> string \<Rightarrow> bool" where
  "memberOfUnion s a b =
     (case map_of (getTypeMap s) b of
        Some (Value (GraphQLUnionType u)) \<Rightarrow> a \<in> set (union_types u)
      | _ \<Rightarrow> False)"

fun isSubtype :: "schema \<Rightarrow> gql_type \<Rightarrow> gql_type \<Rightarrow> bool" where
  "isSubtype s (GraphQLNonNull a) (GraphQLNonNull b) = isSubtype s a b"
| "isSubtype s a (GraphQLNonNull b) = False"
| "isSubtype s (GraphQLNonNull a) b = isSubtype s a b"
| "isSubtype s (GraphQLList a) (GraphQLList b) = isSubtype s a b"
| "isSubtype s a (GraphQLList b) = False"
| "isSubtype s (GraphQLList a) b = False"
| "isSubtype s (NamedType a) (NamedType b) =
     (a = b \<or> objectImplements s a b \<or> memberOfUnion s a b)"

definition structuralComparators :: comparators where
  "structuralComparators = \<lparr>isTypeSubTypeOf = isSubtype, isEqualType = (\<lambda>a b. a = b)\<rparr>"

definition nodeInterface :: composite_type where
  "nodeInterface =
     \<lparr>name = ''Node'',
      getFields = [(''id'', \<lparr>field_type = NamedType ''ID'', field_args = []\<rparr>)],
      astNode = None, extensionASTNodes = None\<rparr>"

definition bareObject :: object_type where
  "bareObject =
     \<lparr>name = ''Bare'', getFields = [], astNode = None, extensionASTNodes = None,
      getInterfaces = [Value (IsInterface nodeInterface)]\<rparr>"

definition emptySchema :: schema where
  "emptySchema =
     \<lparr>getQueryType = Undefined, getMutationType = Undefined, getSubscriptionType = Undefined,
      getDirectives = [], getTypeMap = [], schemaAstNode = None, validationErrors = None\<rparr>"

definition intScalar :: other_type where
  "intScalar = \<lparr>type_string = ''Int'', type_astNode = None\<rparr>"

definition twoDefectsSchema :: schema where
  "twoDefectsSchema =
     \<lparr>getQueryType = Undefined, getMutationType = Value (OtherType intScalar),
      getSubscriptionType = Undefined, getDirectives = [],
      getTypeMap = [(''Int'', Value (OtherType intScalar))],
      schemaAstNode = None, validationErrors = None\<rparr>"

text \<open>An object without a prototype, as \<open>Object.create(null)\<close> makes it, and the
  schema that has it as its query type.\<close>

definition nullPrototypeObject :: opaque where
  "nullPrototypeObject = \<lparr>o_string = None, o_name = None, o_astNode = None\<rparr>"

definition nullPrototypeQuerySchema :: schema where
  "nullPrototypeQuerySchema =
     \<lparr>getQueryType = Value (NotAType nullPrototypeObject),
      getMutationType = Undefined, getSubscriptionType = Undefined, getDirectives = [],
      getTypeMap = [(''undefined'', Value (NotAType nullPrototypeObject))],
      schemaAstNode = None, validationErrors = None\<rparr>"



definition shapeInterface :: composite_type where
  "shapeInterface =
     \<lparr>name = ''Shape'',
      getFields = [(''area'', \<lparr>field_type = NamedType ''Float'', field_args = []\<rparr>)],
      astNode = None, extensionASTNodes = None\<rparr>"

definition squareObject :: object_type where
  "squareObject =
     \<lparr>name = ''Square'',
      getFields = [(''area'', \<lparr>field_type = NamedType ''Float'',
                               field_args = [\<lparr>arg_name = ''unit'',
                                               arg_type = GraphQLNonNull (NamedType ''String'')\<rparr>,
                                             \<lparr>arg_name = ''precision'',
                                               arg_type = NamedType ''Int''\<rparr>]\<rparr>)],
      astNode = None, extensionASTNodes = None,
      getInterfaces = [Value (IsInterface shapeInterface)]\<rparr>"



definition thriceObject :: object_type where
  "thriceObject =
     \<lparr>name = ''Thrice'',
      getFields = [(''id'', \<lparr>field_type = NamedType ''ID'', field_args = []\<rparr>)],
      astNode = Some \<lparr>td_loc = 1,
                       td_interfaces = Some [\<lparr>ntn_loc = 2, ntn_name = ''Node''\<rparr>,
                                             \<lparr>ntn_loc = 3, ntn_name = ''Node''\<rparr>],
                       td_fields = None\<rparr>,
      extensionASTNodes = Some [\<lparr>td_loc = 4,
                                  td_interfaces = Some [\<lparr>ntn_loc = 5, ntn_name = ''Other''\<rparr>,
                                                        \<lparr>ntn_loc = 6, ntn_name = ''Node''\<rparr>],
                                  td_fields = None\<rparr>],
      getInterfaces = [Value (IsInterface nodeInterface), Value (IsInterface nodeInterface),
                       Value (IsInterface nodeInterface)]\<rparr>"

definition thriceSchema :: schema where
  "thriceSchema =
     \<lparr>getQueryType = Value (GraphQLObjectType thriceObject),
      getMutationType = Undefined, getSubscriptionType = Undefined, getDirectives = [],
      getTypeMap = [(''Int'', Value (OtherType intScalar)),
                    (''Thrice'', Value (GraphQLObjectType thriceObject)),
                    (''Node'', Value (GraphQLInterfaceType nodeInterface))],
      schemaAstNode = None, validationErrors = None\<rparr>"

definition locatedInterface :: composite_type where
  "locatedInterface =
     \<lparr>name = ''Node'',
      getFields = [(''id'', \<lparr>field_type = NamedType ''ID'', field_args = []\<rparr>)],
      astNode = Some \<lparr>td_loc = 10, td_interfaces = None,
                       td_fields = Some [\<lparr>fd_loc = 11, fd_name = ''id'',
                                          fd_type = NamedTypeRef \<lparr>ntn_loc = 12, ntn_name = ''ID''\<rparr>,
                                          fd_arguments = None\<rparr>]\<rparr>,
      extensionASTNodes = None\<rparr>"

definition unlocatedObject :: object_type where
  "unlocatedObject =
     \<lparr>name = ''Plain'', getFields = [], astNode = None, extensionASTNodes = None,
      getInterfaces = [Value (IsInterface locatedInterface)]\<rparr>"

definition mixedSchema :: schema where
  "mixedSchema =
     \<lparr>getQueryType = Value (GraphQLObjectType unlocatedObject),
      getMutationType = Undefined, getSubscriptionType = Undefined, getDirectives = [],
      getTypeMap = [(''Plain'', Value (GraphQLObjectType unlocatedObject)),
                    (''Node'', Value (GraphQLInterfaceType locatedInterface))],
      schemaAstNode = None, validationErrors = None\<rparr>"

section \<open>How the checkers extend the list of diagnostics\<close>

lemma errors_reportError:
  "errors (reportError context msg ns) =
     errors context @ [GraphQLError msg (filter (\<lambda>n. n \<noteq> None) (case ns of Many arr \<Rightarrow> arr | Single n \<Rightarrow> [n]))]"
  by (simp add: reportError_def)

lemma appendsD: "appends f \<Longrightarrow> errors (f c) = errors c @ errors (f newSchemaValidationContext)"
  unfolding appends_def by (rule spec)

lemma appends_id: "appends (\<lambda>c. c)"
  by (simp add: appends_def newSchemaValidationContext_def)

lemma appends_reportError: "appends (\<lambda>c. reportError c msg ns)"
  by (simp add: appends_def errors_reportError newSchemaValidationContext_def)

lemma appends_if: "appends f \<Longrightarrow> appends g \<Longrightarrow> appends (\<lambda>c. if b then f c else g c)"
  by (cases b) simp_all

lemma appends_comp:
  assumes "appends f" and "appends g"
  shows "appends (\<lambda>c. g (f c))"
  unfolding appends_def
proof
  fix c
  have "errors (g (f c)) = errors c @ errors (f newSchemaValidationContext) @ errors (g newSchemaValidationContext)"
    using appendsD [OF assms(2), of "f c"] appendsD [OF assms(1), of c] by simp
  moreover have "errors (g (f newSchemaValidationContext)) = errors (f newSchemaValidationContext) @ errors (g newSchemaValidationContext)"
    using appendsD [OF assms(2), of "f newSchemaValidationContext"] by simp
  ultimately show "errors (g (f c)) = errors c @ errors (g (f newSchemaValidationContext))"
    by simp
qed

lemma appends_fold:
  assumes "\<And>x. appends (h x)"
  shows "appends (fold h xs)"
proof (induction xs)
  case Nil
  show ?case using appends_id by simp
next
  case (Cons x xs)
  have "appends (\<lambda>c. fold h xs (h x c))"
    by (rule appends_comp [OF assms Cons.IH])
  then show ?case by simp
qed

lemma errors_fold:
  assumes "\<And>x. appends (h x)"
  shows "errors (fold h xs c) = errors c @ concat (map (\<lambda>x. errors (h x newSchemaValidationContext)) xs)"
proof (induction xs arbitrary: c)
  case Nil
  show ?case by simp
next
  case (Cons x xs)
  have "errors (h x c) = errors c @ errors (h x newSchemaValidationContext)"
    by (rule appendsD [OF assms])
  with Cons show ?case by simp
qed

lemma appends_validateInterfaceArg:
  "appends (validateInterfaceArg cmp object iface fieldName objectField ifaceArg)"
  unfolding validateInterfaceArg_def Let_def
  by (cases "find (\<lambda>arg. arg_name arg = arg_name ifaceArg) (field_args objectField)")
     (simp_all only: option.case appends_reportError appends_if appends_id)

lemma appends_validateObjectArg:
  "appends (validateObjectArg object iface fieldName ifaceField objectArg)"
  unfolding validateObjectArg_def Let_def
  by (rule appends_if, rule appends_reportError, rule appends_id)

lemma appends_validateInterfaceField:
  "appends (validateInterfaceField cmp s object iface entry)"
proof (cases "map_of (getFields object) (fst entry)")
  case None
  then show ?thesis
    unfolding validateInterfaceField_def Let_def by (simp only: option.case appends_reportError)
next
  case (Some objectField)
  show ?thesis
    unfolding validateInterfaceField_def Let_def Some option.case
    apply (rule appends_comp [where g = "fold (validateObjectArg object iface (fst entry) (snd entry)) (field_args objectField)"])
     apply (rule appends_comp [where g = "fold (validateInterfaceArg cmp object iface (fst entry) objectField) (field_args (snd entry))"])
      apply (rule appends_if, rule appends_reportError, rule appends_id)
     apply (rule appends_fold, rule appends_validateInterfaceArg)
    apply (rule appends_fold, rule appends_validateObjectArg)
    done
qed

lemma concat_map_if_singleton:
  "concat (map (\<lambda>x. if P x then [f x] else []) xs) = map f (filter P xs)"
  by (induction xs) simp_all

lemma find_None_names:
  "(find (\<lambda>arg. arg_name arg = n) as = None) = (n \<notin> set (map arg_name as))"
  by (auto simp: find_None_iff)

lemma errors_validateObjectArg:
  "errors (validateObjectArg object iface fieldName ifaceField objectArg newSchemaValidationContext) =
     (if arg_name objectArg \<notin> set (map arg_name (field_args ifaceField)) \<and> isNonNull (arg_type objectArg)
      then [GraphQLError
              (name object @ ''.'' @ fieldName @ ''('' @ arg_name objectArg @ '':) is of required type ''
                 @ (dq @ typeToString (arg_type objectArg) @ dq
                      @ '' but is not also provided by the '')
                 @ (''interface '' @ name iface @ ''.'' @ fieldName @ ''.''))
              (filter (\<lambda>n. n \<noteq> None)
                 [map_option TypeNode (getFieldArgTypeNode object fieldName (arg_name objectArg)),
                  map_option FieldDefinitionNode (getFieldNode iface fieldName)])]
      else [])"
  unfolding validateObjectArg_def Let_def find_None_names
  by (simp only: errors_reportError newSchemaValidationContext_def nodes_arg.case
        SchemaValidationContext.select_convs append_Nil if_distrib [of errors] cong: if_cong)

lemma errors_validateInterfaceField_present:
  assumes "map_of (getFields object) fieldName = Some objectField"
  shows "errors (validateInterfaceField cmp s object i (fieldName, ifaceField) c) =
     errors c
     @ (if \<not> isTypeSubTypeOf cmp s (field_type objectField) (field_type ifaceField) then
          [GraphQLError
             (name i @ ''.'' @ fieldName @ '' expects type ''
                @ (dq @ typeToString (field_type ifaceField) @ dq @ '' but ''
                     @ name object @ ''.'' @ fieldName @ '' is '')
                @ (''type '' @ dq @ typeToString (field_type objectField) @ dq @ ''.''))
             (filter (\<lambda>n. n \<noteq> None)
                [map_option TypeNode (getFieldTypeNode i fieldName),
                 map_option TypeNode (getFieldTypeNode object fieldName)])]
        else [])
     @ concat (map (\<lambda>a. errors (validateInterfaceArg cmp object i fieldName objectField a
                                    newSchemaValidationContext))
                 (field_args ifaceField))
     @ concat (map (\<lambda>a. errors (validateObjectArg object i fieldName ifaceField a
                                    newSchemaValidationContext))
                 (field_args objectField))"
  unfolding validateInterfaceField_def Let_def fst_conv snd_conv assms option.case
    errors_fold [of "validateObjectArg object i fieldName ifaceField", OF appends_validateObjectArg]
    errors_fold [of "validateInterfaceArg cmp object i fieldName objectField", OF appends_validateInterfaceArg]
  by (simp only: errors_reportError nodes_arg.case if_distrib [of errors] append_assoc
       append_Nil2 split: if_split) simp


lemma andThen_Inr [simp]: "andThen (Inr v) f = f v"
  by (simp add: andThen_def)

lemma andThen_Inl [simp]: "andThen (Inl e) f = Inl e"
  by (simp add: andThen_def)

lemma appendsE_D:
  "appendsE f \<Longrightarrow> f c = (case f newSchemaValidationContext of
                               Inl e \<Rightarrow> Inl e
                             | Inr c' \<Rightarrow> Inr \<lparr>errors = errors c @ errors c'\<rparr>)"
  unfolding appendsE_def by (rule spec)

lemma appendsE_Inr:
  assumes "appends f"
  shows "appendsE (\<lambda>c. Inr (f c))"
  unfolding appendsE_def
proof
  fix c
  have "errors (f c) = errors c @ errors (f newSchemaValidationContext)"
    by (rule appendsD [OF assms])
  then have "f c = \<lparr>errors = errors c @ errors (f newSchemaValidationContext)\<rparr>"
    by simp
  then show "Inr (f c) = (case Inr (f newSchemaValidationContext) of Inl e \<Rightarrow> Inl e
                          | Inr c' \<Rightarrow> Inr \<lparr>errors = errors c @ errors c'\<rparr>)"
    by simp
qed

lemma appendsE_rendered:
  "appendsE (\<lambda>c. andThen r (\<lambda>rendered. Inr (reportError c (m rendered) ns)))"
proof (cases r)
  case (Inl e)
  then show ?thesis by (simp add: appendsE_def)
next
  case (Inr x)
  show ?thesis
    unfolding Inr andThen_Inr by (rule appendsE_Inr, rule appends_reportError)
qed

lemma appendsE_if:
  "appendsE f \<Longrightarrow> appendsE g \<Longrightarrow> appendsE (\<lambda>c. if b then f c else g c)"
  by (cases b) simp_all

lemma appendsE_seq:
  assumes "appendsE f" and "appendsE g"
  shows "appendsE (\<lambda>c. andThen (f c) g)"
  unfolding appendsE_def
proof
  fix c
  show "andThen (f c) g =
      (case andThen (f newSchemaValidationContext) g of Inl e \<Rightarrow> Inl e
       | Inr c' \<Rightarrow> Inr \<lparr>errors = errors c @ errors c'\<rparr>)"
  proof (cases "f newSchemaValidationContext")
    case (Inl e)
    then have "f c = Inl e" using appendsE_D [OF assms(1), of c] by simp
    with Inl show ?thesis by simp
  next
    case (Inr c1)
    then have fc: "f c = Inr \<lparr>errors = errors c @ errors c1\<rparr>"
      using appendsE_D [OF assms(1), of c] by simp
    show ?thesis
    proof (cases "g newSchemaValidationContext")
      case (Inl e)
      then show ?thesis
        using Inr fc appendsE_D [OF assms(2), of c1]
          appendsE_D [OF assms(2), of "\<lparr>errors = errors c @ errors c1\<rparr>"] by simp
    next
      case (Inr c2)
      then show ?thesis
        using \<open>f newSchemaValidationContext = Inr c1\<close> fc appendsE_D [OF assms(2), of c1]
          appendsE_D [OF assms(2), of "\<lparr>errors = errors c @ errors c1\<rparr>"] by simp
    qed
  qed
qed

lemma forEach_andThen:
  "forEach h (x # xs) st = andThen (h x st) (forEach h xs)"
  by (simp add: andThen_def)

lemma appendsE_forEach:
  assumes "\<And>x. appendsE (h x)"
  shows "appendsE (forEach h xs)"
proof (induction xs)
  case Nil
  show ?case by (simp add: appendsE_def newSchemaValidationContext_def)
next
  case (Cons x xs)
  have "appendsE (\<lambda>c. andThen (h x c) (forEach h xs))"
    by (rule appendsE_seq [OF assms Cons.IH])
  then show ?case
    unfolding forEach_andThen [abs_def] .
qed

lemma appendsE_validateObjectImplementsInterface:
  "appendsE (\<lambda>c. validateObjectImplementsInterface cmp c s object iface)"
proof (cases iface)
  case (IsInterface i)
  show ?thesis
    unfolding validateObjectImplementsInterface_def IsInterface implemented.case
    by (rule appendsE_Inr, rule appends_fold, rule appends_validateInterfaceField)
next
  case (NotInterface b)
  show ?thesis
    unfolding validateObjectImplementsInterface_def NotInterface implemented.case
    by (rule appendsE_rendered)
qed

section \<open>The fields of an interface\<close>

lemma validateObjectImplementsInterface_split:
  assumes "getFields i = pre @ entry # post"
  shows "validateObjectImplementsInterface cmp ctx s object (IsInterface i) =
     Inr \<lparr>errors = errors (fold (validateInterfaceField cmp s object i) pre ctx)
                    @ errors (validateInterfaceField cmp s object i entry newSchemaValidationContext)
                    @ errors (fold (validateInterfaceField cmp s object i) post
                                newSchemaValidationContext)\<rparr>"
proof -
  let ?f = "validateInterfaceField cmp s object i"
  let ?c1 = "fold ?f pre ctx"
  have step: "errors (?f entry ?c1) = errors ?c1 @ errors (?f entry newSchemaValidationContext)"
    by (rule appendsD [OF appends_validateInterfaceField])
  have rest: "errors (fold ?f post (?f entry ?c1)) =
      errors (?f entry ?c1) @ errors (fold ?f post newSchemaValidationContext)"
    by (rule appendsD [OF appends_fold [of ?f], OF appends_validateInterfaceField])
  have "errors (fold ?f (getFields i) ctx) =
      errors ?c1 @ errors (?f entry newSchemaValidationContext)
        @ errors (fold ?f post newSchemaValidationContext)"
    unfolding assms using step rest by simp
  then have "fold ?f (getFields i) ctx =
      \<lparr>errors = errors ?c1 @ errors (?f entry newSchemaValidationContext)
        @ errors (fold ?f post newSchemaValidationContext)\<rparr>"
    by simp
  then show ?thesis
    unfolding validateObjectImplementsInterface_def implemented.case by (rule arg_cong)
qed

lemma errors_validateInterfaceField_missing:
  assumes "map_of (getFields object) fieldName = None"
  shows "errors (validateInterfaceField cmp s object i (fieldName, ifaceField)
                   newSchemaValidationContext) =
     [GraphQLError
        (dq @ name i @ dq @ '' expects field '' @ dq @ fieldName @ dq @ '' but ''
           @ dq @ name object @ dq @ '' '' @ ''does not provide it.'')
        (filter (\<lambda>n. n \<noteq> None)
           [map_option FieldDefinitionNode (getFieldNode i fieldName),
            map_option TypeDefinitionNode (astNode object)])]"
  unfolding validateInterfaceField_def Let_def fst_conv snd_conv assms option.case
  by (simp only: errors_reportError nodes_arg.case newSchemaValidationContext_def
       SchemaValidationContext.select_convs append_Nil)

text \<open>
  C6. When the object type has no field of the name of an interface field, the
  checker adds exactly one diagnostic for that field, the missing-field one, which
  depends neither on the comparators nor on the type and arguments of the interface
  field; the fields before it and the fields after it are checked as usual, and the
  checker returns.
\<close>

theorem missing_field:
  assumes "getFields i = pre @ (fieldName, ifaceField) # post"
      and "map_of (getFields object) fieldName = None"
  shows "validateObjectImplementsInterface cmp ctx s object (IsInterface i) =
     Inr \<lparr>errors =
           errors (fold (validateInterfaceField cmp s object i) pre ctx)
           @ [GraphQLError
                (dq @ name i @ dq @ '' expects field '' @ dq @ fieldName @ dq @ '' but ''
                   @ dq @ name object @ dq @ '' '' @ ''does not provide it.'')
                (filter (\<lambda>n. n \<noteq> None)
                   [map_option FieldDefinitionNode (getFieldNode i fieldName),
                    map_option TypeDefinitionNode (astNode object)])]
           @ errors (fold (validateInterfaceField cmp s object i) post
                       newSchemaValidationContext)\<rparr>"
  unfolding validateObjectImplementsInterface_split [OF assms(1)]
    errors_validateInterfaceField_missing [OF assms(2)] ..

theorem missing_field_witness:
  "getFields nodeInterface = [] @ (''id'', \<lparr>field_type = NamedType ''ID'', field_args = []\<rparr>) # [] \<and>
   map_of (getFields bareObject) ''id'' = None \<and>
   validateObjectImplementsInterface structuralComparators newSchemaValidationContext
     emptySchema bareObject (IsInterface nodeInterface) =
     Inr \<lparr>errors =
            [GraphQLError (dq @ ''Node'' @ dq @ '' expects field '' @ dq @ ''id'' @ dq @ '' but ''
                             @ dq @ ''Bare'' @ dq @ '' does not provide it.'') []]\<rparr>"
proof -
  have h1: "getFields nodeInterface = [] @ (''id'', \<lparr>field_type = NamedType ''ID'', field_args = []\<rparr>) # []"
    by (simp add: nodeInterface_def)
  have h2: "map_of (getFields bareObject) ''id'' = None"
    by (simp add: bareObject_def)
  show ?thesis
    using h1 h2 missing_field [OF h1 h2, where cmp = structuralComparators and s = emptySchema
        and ctx = newSchemaValidationContext]
    by (simp add: nodeInterface_def bareObject_def newSchemaValidationContext_def
        getFieldNode_def declarationNodes_def)
qed

text \<open>
  C5. For a field of the interface that the object type has too, the conformance
  check adds, after the diagnostics of the return type and of the arguments of the
  interface field, one diagnostic for each argument of the object field that the
  interface field does not declare and whose type is a NonNull wrapper, in the order
  of the arguments, and nothing for any other argument of the object field: an
  extra argument of a nullable type, or an argument the interface field has too.
\<close>

theorem extra_required_arguments:
  assumes "getFields i = pre @ (fieldName, ifaceField) # post"
      and "map_of (getFields object) fieldName = Some objectField"
  shows "validateObjectImplementsInterface cmp ctx s object (IsInterface i) =
     Inr \<lparr>errors =
           errors (fold (validateInterfaceField cmp s object i) pre ctx)
           @ (if \<not> isTypeSubTypeOf cmp s (field_type objectField) (field_type ifaceField) then
                [GraphQLError
                   (name i @ ''.'' @ fieldName @ '' expects type ''
                      @ (dq @ typeToString (field_type ifaceField) @ dq @ '' but ''
                           @ name object @ ''.'' @ fieldName @ '' is '')
                      @ (''type '' @ dq @ typeToString (field_type objectField) @ dq @ ''.''))
                   (filter (\<lambda>n. n \<noteq> None)
                      [map_option TypeNode (getFieldTypeNode i fieldName),
                       map_option TypeNode (getFieldTypeNode object fieldName)])]
              else [])
           @ concat (map (\<lambda>a. errors (validateInterfaceArg cmp object i fieldName objectField a
                                          newSchemaValidationContext))
                       (field_args ifaceField))
           @ map (\<lambda>objectArg.
                    GraphQLError
                      (name object @ ''.'' @ fieldName @ ''('' @ arg_name objectArg
                         @ '':) is of required type ''
                         @ (dq @ typeToString (arg_type objectArg) @ dq
                              @ '' but is not also provided by the '')
                         @ (''interface '' @ name i @ ''.'' @ fieldName @ ''.''))
                      (filter (\<lambda>n. n \<noteq> None)
                         [map_option TypeNode
                            (getFieldArgTypeNode object fieldName (arg_name objectArg)),
                          map_option FieldDefinitionNode (getFieldNode i fieldName)]))
               (filter (\<lambda>objectArg. arg_name objectArg \<notin> set (map arg_name (field_args ifaceField))
                                     \<and> isNonNull (arg_type objectArg))
                  (field_args objectField))
           @ errors (fold (validateInterfaceField cmp s object i) post
                       newSchemaValidationContext)\<rparr>"
proof -
  have "errors (validateInterfaceField cmp s object i (fieldName, ifaceField)
                  newSchemaValidationContext) =
        (if \<not> isTypeSubTypeOf cmp s (field_type objectField) (field_type ifaceField) then
                [GraphQLError
                   (name i @ ''.'' @ fieldName @ '' expects type ''
                      @ (dq @ typeToString (field_type ifaceField) @ dq @ '' but ''
                           @ name object @ ''.'' @ fieldName @ '' is '')
                      @ (''type '' @ dq @ typeToString (field_type objectField) @ dq @ ''.''))
                   (filter (\<lambda>n. n \<noteq> None)
                      [map_option TypeNode (getFieldTypeNode i fieldName),
                       map_option TypeNode (getFieldTypeNode object fieldName)])]
              else [])
           @ concat (map (\<lambda>a. errors (validateInterfaceArg cmp object i fieldName objectField a
                                          newSchemaValidationContext))
                       (field_args ifaceField))
           @ map (\<lambda>objectArg.
                    GraphQLError
                      (name object @ ''.'' @ fieldName @ ''('' @ arg_name objectArg
                         @ '':) is of required type ''
                         @ (dq @ typeToString (arg_type objectArg) @ dq
                              @ '' but is not also provided by the '')
                         @ (''interface '' @ name i @ ''.'' @ fieldName @ ''.''))
                      (filter (\<lambda>n. n \<noteq> None)
                         [map_option TypeNode
                            (getFieldArgTypeNode object fieldName (arg_name objectArg)),
                          map_option FieldDefinitionNode (getFieldNode i fieldName)]))
               (filter (\<lambda>objectArg. arg_name objectArg \<notin> set (map arg_name (field_args ifaceField))
                                     \<and> isNonNull (arg_type objectArg))
                  (field_args objectField))"
    unfolding errors_validateInterfaceField_present [OF assms(2)]
      errors_validateObjectArg concat_map_if_singleton
    by (simp add: newSchemaValidationContext_def)
  then show ?thesis
    unfolding validateObjectImplementsInterface_split [OF assms(1)]
    by (simp only: append_assoc)
qed

theorem extra_required_arguments_witness:
  "getFields shapeInterface =
     [] @ (''area'', \<lparr>field_type = NamedType ''Float'', field_args = []\<rparr>) # [] \<and>
   map_of (getFields squareObject) ''area'' =
     Some \<lparr>field_type = NamedType ''Float'',
           field_args = [\<lparr>arg_name = ''unit'', arg_type = GraphQLNonNull (NamedType ''String'')\<rparr>,
                         \<lparr>arg_name = ''precision'', arg_type = NamedType ''Int''\<rparr>]\<rparr> \<and>
   validateObjectImplementsInterface structuralComparators newSchemaValidationContext
     emptySchema squareObject (IsInterface shapeInterface) =
     Inr \<lparr>errors =
            [GraphQLError
               (''Square.area(unit:) is of required type '' @ dq @ ''String!'' @ dq
                  @ '' but is not also provided by the interface Shape.area.'') []]\<rparr>"
proof -
  have h1: "getFields shapeInterface =
     [] @ (''area'', \<lparr>field_type = NamedType ''Float'', field_args = []\<rparr>) # []"
    by (simp add: shapeInterface_def)
  have h2: "map_of (getFields squareObject) ''area'' =
     Some \<lparr>field_type = NamedType ''Float'',
           field_args = [\<lparr>arg_name = ''unit'', arg_type = GraphQLNonNull (NamedType ''String'')\<rparr>,
                         \<lparr>arg_name = ''precision'', arg_type = NamedType ''Int''\<rparr>]\<rparr>"
    by (simp add: squareObject_def)
  show ?thesis
    using h1 h2 extra_required_arguments [OF h1 h2, where cmp = structuralComparators
        and s = emptySchema and ctx = newSchemaValidationContext]
    by (simp add: shapeInterface_def squareObject_def structuralComparators_def
        newSchemaValidationContext_def getFieldNode_def getFieldArgTypeNode_def
        getFieldArgNode_def declarationNodes_def)
qed

section \<open>Argument types\<close>



section \<open>Asserting validity\<close>

lemma join_blank_line:
  "join (x # xs) sep = x @ concat (map (\<lambda>y. sep @ y) xs)"
  by (induction xs arbitrary: x) simp_all

text \<open>
  C9. When \<open>validateSchema\<close> returns a list of diagnostics, \<open>assertValidSchema\<close>
  returns normally if the list is empty, and otherwise throws an error whose
  message is the messages of the diagnostics in their order, two newlines between
  one and the next.
\<close>

theorem assertValidSchema_joins_messages:
  assumes "validateSchema cmp input = Inr (errs, s')"
  shows "assertValidSchema cmp input =
           (if errs = [] then Inr s'
            else Inl (Error (message (hd errs)
                               @ concat (map (\<lambda>d. [CHR 0x0A, CHR 0x0A] @ message d) (tl errs)))))"
proof (cases errs)
  case Nil
  then show ?thesis using assms by (simp add: assertValidSchema_def)
next
  case (Cons d ds)
  then show ?thesis using assms by (simp add: assertValidSchema_def join_blank_line comp_def)
qed

section \<open>Root types, directives and the type map\<close>

lemma appendsE_validateRootTypes: "appendsE (\<lambda>c. validateRootTypes c s)"
  unfolding validateRootTypes_def
  apply (rule appendsE_seq)
   apply (rule appendsE_if)
    apply (rule appendsE_Inr, rule appends_reportError)
   apply (rule appendsE_if)
    apply (rule appendsE_rendered)
   apply (rule appendsE_Inr, rule appends_id)
  apply (rule appendsE_seq)
   apply (rule appendsE_if)
    apply (rule appendsE_rendered)
   apply (rule appendsE_Inr, rule appends_id)
  apply (rule appendsE_if)
   apply (rule appendsE_rendered)
  apply (rule appendsE_Inr, rule appends_id)
  done

lemma appendsE_validateDirective: "appendsE (validateDirective d)"
  unfolding validateDirective_def
  by (rule appendsE_if, rule appendsE_rendered, rule appendsE_Inr, rule appends_id)

lemma appendsE_validateDirectives: "appendsE (\<lambda>c. validateDirectives c s)"
  unfolding validateDirectives_def
  by (rule appendsE_forEach, rule appendsE_validateDirective)

text \<open>The loop over the interfaces: its state has the recorded names too, which
  do not depend on the context.\<close>

lemma validateInterface_Value:
  "validateInterface cmp s t (Value i) (c, seen) =
     andThen (validateObjectImplementsInterface cmp newSchemaValidationContext s t i)
       (\<lambda>c'. Inr (\<lparr>errors = errors c
                                @ (if interfaceKey i \<in> seen then [onlyOnceError t i] else [])
                                @ errors c'\<rparr>,
                    insert (interfaceKey i) seen))"
proof -
  let ?k = "toPropertyKey (implementedName i)"
  let ?pre = "if ?k \<in> seen then
                    reportError c
                      (name t @ '' must declare it implements ''
                         @ toPropertyKey (implementedName i) @ '' only once.'')
                      (Many (map (\<lambda>n. Some (NamedTypeNode n))
                               (getAllImplementsInterfaceNode t (implementedName i))))
                  else c"
  have flt: "filter (\<lambda>n. n \<noteq> None) (map (\<lambda>n. Some (f n)) xs) = map (\<lambda>n. Some (f n)) xs"
    for f :: "named_type_node \<Rightarrow> ast_node" and xs
    by (induction xs) simp_all
  have pre: "errors ?pre = errors c @ (if ?k \<in> seen then [onlyOnceError t i] else [])"
    by (simp add: errors_reportError onlyOnceError_def flt)
  have run: "validateObjectImplementsInterface cmp ?pre s t i =
      (case validateObjectImplementsInterface cmp newSchemaValidationContext s t i of
         Inl e \<Rightarrow> Inl e
       | Inr c' \<Rightarrow> Inr \<lparr>errors = errors ?pre @ errors c'\<rparr>)"
    by (rule appendsE_D [OF appendsE_validateObjectImplementsInterface])
  have main: "validateInterface cmp s t (Value i) (c, seen) =
      andThen (validateObjectImplementsInterface cmp ?pre s t i)
        (\<lambda>context2. Inr (context2, insert ?k seen))"
    unfolding validateInterface_def Let_def nullable.case fst_conv snd_conv ..
  show ?thesis
    unfolding main run pre interfaceKey_def
    by (cases "validateObjectImplementsInterface cmp newSchemaValidationContext s t i")
       simp_all
qed

lemma forEach_validateInterface:
  "forEach (validateInterface cmp s t) ifaces (c, seen) =
     (case forEach (validateInterface cmp s t) ifaces (newSchemaValidationContext, seen) of
        Inl e \<Rightarrow> Inl e
      | Inr st \<Rightarrow> Inr (\<lparr>errors = errors c @ errors (fst st)\<rparr>, snd st))"
proof (induction ifaces arbitrary: c seen)
  case Nil
  show ?case by (simp add: newSchemaValidationContext_def)
next
  case (Cons iface ifaces)
  show ?case
  proof (cases iface)
    case Undefined
    then show ?thesis by (simp add: validateInterface_def)
  next
    case Null
    then show ?thesis by (simp add: validateInterface_def)
  next
    case (Value i)
    show ?thesis
    proof (cases "validateObjectImplementsInterface cmp newSchemaValidationContext s t i")
      case (Inl e)
      then show ?thesis
        unfolding Value forEach.simps validateInterface_Value by simp
    next
      case (Inr c1)
      let ?dup = "if interfaceKey i \<in> seen then [onlyOnceError t i] else []"
      have e0: "errors newSchemaValidationContext = []"
        by (simp add: newSchemaValidationContext_def)
      have l: "forEach (validateInterface cmp s t) (iface # ifaces) (c, seen) =
          forEach (validateInterface cmp s t) ifaces
            (\<lparr>errors = errors c @ ?dup @ errors c1\<rparr>, insert (interfaceKey i) seen)"
        unfolding Value forEach.simps validateInterface_Value Inr by simp
      have r: "forEach (validateInterface cmp s t) (iface # ifaces) (newSchemaValidationContext, seen) =
          forEach (validateInterface cmp s t) ifaces
            (\<lparr>errors = ?dup @ errors c1\<rparr>, insert (interfaceKey i) seen)"
        unfolding Value forEach.simps validateInterface_Value Inr by (simp add: e0)
      show ?thesis
        unfolding l r
        unfolding Cons.IH [of "\<lparr>errors = errors c @ ?dup @ errors c1\<rparr>"]
          Cons.IH [of "\<lparr>errors = ?dup @ errors c1\<rparr>"]
        by (cases "forEach (validateInterface cmp s t) ifaces
                     (newSchemaValidationContext, insert (interfaceKey i) seen)") simp_all
    qed
  qed
qed

lemma appendsE_validateType: "appendsE (validateType cmp s entry)"
proof (cases "\<exists>ot. snd entry = Value (GraphQLObjectType ot)")
  case True
  then obtain ot where ot: "snd entry = Value (GraphQLObjectType ot)" by blast
  have run: "validateType cmp s entry c =
        andThen (forEach (validateInterface cmp s ot) (getInterfaces ot) (c, {}))
          (\<lambda>st. Inr (fst st))" for c
    unfolding validateType_def Let_def by (simp add: ot)
  show ?thesis
    unfolding appendsE_def
  proof
    fix c
    show "validateType cmp s entry c =
         (case validateType cmp s entry newSchemaValidationContext of Inl e \<Rightarrow> Inl e
          | Inr c' \<Rightarrow> Inr \<lparr>errors = errors c @ errors c'\<rparr>)"
      unfolding run
      unfolding forEach_validateInterface [of cmp s ot "getInterfaces ot" c]
      by (cases "forEach (validateInterface cmp s ot) (getInterfaces ot)
                   (newSchemaValidationContext, {})") simp_all
  qed
next
  case False
  have "validateType cmp s entry =
      (\<lambda>c. andThen
        (if \<not> isType (snd entry) then
           andThen (String valueToString (snd entry))
             (\<lambda>rendered.
                Inr (reportError c
                       (''Expected GraphQL type but got: '' @ rendered @ ''.'')
                       (Single (andAstNode valueAstNode (snd entry)))))
         else Inr c)
        Inr)"
  proof
    fix c
    show "validateType cmp s entry c =
      andThen
        (if \<not> isType (snd entry) then
           andThen (String valueToString (snd entry))
             (\<lambda>rendered.
                Inr (reportError c
                       (''Expected GraphQL type but got: '' @ rendered @ ''.'')
                       (Single (andAstNode valueAstNode (snd entry)))))
         else Inr c)
        Inr"
      using False unfolding validateType_def Let_def
      by (intro arg_cong2 [where f = andThen] refl ext)
         (simp split: nullable.splits gql_value.splits)
  qed
  moreover have "appendsE (\<lambda>c. andThen
        (if \<not> isType (snd entry) then
           andThen (String valueToString (snd entry))
             (\<lambda>rendered.
                Inr (reportError c
                       (''Expected GraphQL type but got: '' @ rendered @ ''.'')
                       (Single (andAstNode valueAstNode (snd entry)))))
         else Inr c)
        Inr)"
    apply (rule appendsE_seq)
     apply (rule appendsE_if)
      apply (rule appendsE_rendered)
     apply (rule appendsE_Inr, rule appends_id)
    apply (rule appendsE_Inr, rule appends_id)
    done
  ultimately show ?thesis by simp
qed

lemma appendsE_validateTypes: "appendsE (\<lambda>c. validateTypes cmp c s)"
  unfolding validateTypes_def by (rule appendsE_forEach, rule appendsE_validateType)

section \<open>The stored result\<close>

lemma validateSchema_fresh:
  assumes "validationErrors s = None"
  shows "validateSchema cmp (GraphQLSchema s) =
     andThen (validateRootTypes newSchemaValidationContext s)
       (\<lambda>c1. andThen (validateDirectives newSchemaValidationContext s)
          (\<lambda>c2. andThen (validateTypes cmp newSchemaValidationContext s)
             (\<lambda>c3. Inr (errors c1 @ errors c2 @ errors c3,
                          s\<lparr>validationErrors := Some (errors c1 @ errors c2 @ errors c3)\<rparr>))))"
proof (cases "validateRootTypes newSchemaValidationContext s")
  case (Inl e)
  then show ?thesis
    unfolding validateSchema_def schema_input.case assms option.case by simp
next
  case c1: (Inr c1)
  have d: "validateDirectives c1 s =
      (case validateDirectives newSchemaValidationContext s of
         Inl e \<Rightarrow> Inl e | Inr c' \<Rightarrow> Inr \<lparr>errors = errors c1 @ errors c'\<rparr>)"
    by (rule appendsE_D [OF appendsE_validateDirectives])
  show ?thesis
  proof (cases "validateDirectives newSchemaValidationContext s")
    case (Inl e)
    then show ?thesis
      unfolding validateSchema_def schema_input.case assms option.case c1 andThen_Inr d by simp
  next
    case c2: (Inr c2)
    have t: "validateTypes cmp \<lparr>errors = errors c1 @ errors c2\<rparr> s =
      (case validateTypes cmp newSchemaValidationContext s of
         Inl e \<Rightarrow> Inl e
       | Inr c' \<Rightarrow> Inr \<lparr>errors = errors \<lparr>errors = errors c1 @ errors c2\<rparr> @ errors c'\<rparr>)"
      by (rule appendsE_D [OF appendsE_validateTypes])
    show ?thesis
      unfolding validateSchema_def schema_input.case assms option.case c1 andThen_Inr d c2
        sum.case t getErrors_def Let_def
      by (cases "validateTypes cmp newSchemaValidationContext s") simp_all
  qed
qed

lemma validateSchema_stored:
  "validationErrors s = Some stored \<Longrightarrow> validateSchema cmp (GraphQLSchema s) = Inr (stored, s)"
  by (simp add: validateSchema_def)

text \<open>
  C2. On a schema whose slot for the stored result is empty, a call of
  \<open>validateSchema\<close> that returns has run the root type check, the directive check
  and the type map check in this order from a fresh context, returns their
  diagnostics in this order and stores the list on the schema. Every later call on
  that schema returns the stored list and leaves the schema as it is, whatever
  comparators it is given (no check consults them again), also when the stored list
  is empty.
\<close>

theorem validateSchema_memoizes:
  assumes "validationErrors s = None"
      and "validateSchema cmp (GraphQLSchema s) = Inr (errs, s')"
  shows "(\<exists>rootErrors directiveErrors typeErrors.
            validateRootTypes newSchemaValidationContext s = Inr \<lparr>errors = rootErrors\<rparr> \<and>
            validateDirectives newSchemaValidationContext s = Inr \<lparr>errors = directiveErrors\<rparr> \<and>
            validateTypes cmp newSchemaValidationContext s = Inr \<lparr>errors = typeErrors\<rparr> \<and>
            errs = rootErrors @ directiveErrors @ typeErrors)
         \<and> s' = s\<lparr>validationErrors := Some errs\<rparr>
         \<and> (\<forall>cmp'. validateSchema cmp' (GraphQLSchema s') = Inr (errs, s'))"
proof -
  note run = assms(2) [unfolded validateSchema_fresh [OF assms(1)]]
  obtain c1 where c1: "validateRootTypes newSchemaValidationContext s = Inr c1"
    using run by (cases "validateRootTypes newSchemaValidationContext s") simp_all
  obtain c2 where c2: "validateDirectives newSchemaValidationContext s = Inr c2"
    using run c1 by (cases "validateDirectives newSchemaValidationContext s") simp_all
  obtain c3 where c3: "validateTypes cmp newSchemaValidationContext s = Inr c3"
    using run c1 c2 by (cases "validateTypes cmp newSchemaValidationContext s") simp_all
  have errs: "errs = errors c1 @ errors c2 @ errors c3"
    using run c1 c2 c3 by simp
  have s': "s' = s\<lparr>validationErrors := Some errs\<rparr>"
    using run c1 c2 c3 unfolding errs by simp
  have rec: "c = \<lparr>errors = errors c\<rparr>" for c :: SchemaValidationContext by simp
  have "validateRootTypes newSchemaValidationContext s = Inr \<lparr>errors = errors c1\<rparr>"
    using c1 rec [of c1] by simp
  moreover have "validateDirectives newSchemaValidationContext s = Inr \<lparr>errors = errors c2\<rparr>"
    using c2 rec [of c2] by simp
  moreover have "validateTypes cmp newSchemaValidationContext s = Inr \<lparr>errors = errors c3\<rparr>"
    using c3 rec [of c3] by simp
  moreover have "validateSchema cmp' (GraphQLSchema s') = Inr (errs, s')" for cmp'
    by (rule validateSchema_stored) (simp add: s')
  ultimately show ?thesis using errs s' by blast
qed

lemmas evaluate =
  validateSchema_def validateRootTypes_def validateDirectives_def validateDirective_def
  validateTypes_def validateType_def validateInterface_def
  validateObjectImplementsInterface_def validateInterfaceField_def validateInterfaceArg_def
  validateObjectArg_def reportError_def getErrors_def newSchemaValidationContext_def
  getOperationTypeNode_def getFieldNode_def getFieldTypeNode_def getFieldArgNode_def
  getFieldArgTypeNode_def getAllImplementsInterfaceNode_def getImplementsInterfaceNode_def
  declarationNodes_def andThen_def Let_def

lemma validateSchema_twoDefects:
  "validateSchema structuralComparators (GraphQLSchema twoDefectsSchema) =
     Inr ([GraphQLError ''Query root type must be provided.'' [],
           GraphQLError ''Mutation root type must be Object type if provided but got: Int.'' []],
          twoDefectsSchema\<lparr>validationErrors :=
            Some [GraphQLError ''Query root type must be provided.'' [],
                  GraphQLError ''Mutation root type must be Object type if provided but got: Int.'' []]\<rparr>)"
  by (simp add: evaluate twoDefectsSchema_def intScalar_def)

theorem validateSchema_memoizes_witness:
  "validationErrors twoDefectsSchema = None \<and>
   validateSchema structuralComparators (GraphQLSchema twoDefectsSchema) =
     Inr ([GraphQLError ''Query root type must be provided.'' [],
           GraphQLError ''Mutation root type must be Object type if provided but got: Int.'' []],
          twoDefectsSchema\<lparr>validationErrors :=
            Some [GraphQLError ''Query root type must be provided.'' [],
                  GraphQLError ''Mutation root type must be Object type if provided but got: Int.'' []]\<rparr>) \<and>
   (\<forall>cmp'. validateSchema cmp'
      (GraphQLSchema (twoDefectsSchema\<lparr>validationErrors :=
            Some [GraphQLError ''Query root type must be provided.'' [],
                  GraphQLError ''Mutation root type must be Object type if provided but got: Int.'' []]\<rparr>)) =
     Inr ([GraphQLError ''Query root type must be provided.'' [],
           GraphQLError ''Mutation root type must be Object type if provided but got: Int.'' []],
          twoDefectsSchema\<lparr>validationErrors :=
            Some [GraphQLError ''Query root type must be provided.'' [],
                  GraphQLError ''Mutation root type must be Object type if provided but got: Int.'' []]\<rparr>))"
proof -
  have h1: "validationErrors twoDefectsSchema = None"
    by (simp add: twoDefectsSchema_def)
  have h2: "validateSchema structuralComparators (GraphQLSchema twoDefectsSchema) =
     Inr ([GraphQLError ''Query root type must be provided.'' [],
           GraphQLError ''Mutation root type must be Object type if provided but got: Int.'' []],
          twoDefectsSchema\<lparr>validationErrors :=
            Some [GraphQLError ''Query root type must be provided.'' [],
                  GraphQLError ''Mutation root type must be Object type if provided but got: Int.'' []]\<rparr>)"
    by (rule validateSchema_twoDefects)
  show ?thesis
    using h1 h2 validateSchema_memoizes [OF h1 h2] by blast
qed

theorem assertValidSchema_joins_messages_witness:
  "validateSchema structuralComparators (GraphQLSchema twoDefectsSchema) =
     Inr ([GraphQLError ''Query root type must be provided.'' [],
           GraphQLError ''Mutation root type must be Object type if provided but got: Int.'' []],
          twoDefectsSchema\<lparr>validationErrors :=
            Some [GraphQLError ''Query root type must be provided.'' [],
                  GraphQLError ''Mutation root type must be Object type if provided but got: Int.'' []]\<rparr>) \<and>
   assertValidSchema structuralComparators (GraphQLSchema twoDefectsSchema) =
     Inl (Error (''Query root type must be provided.'' @ [CHR 0x0A, CHR 0x0A]
                   @ ''Mutation root type must be Object type if provided but got: Int.''))"
proof -
  have h: "validateSchema structuralComparators (GraphQLSchema twoDefectsSchema) =
     Inr ([GraphQLError ''Query root type must be provided.'' [],
           GraphQLError ''Mutation root type must be Object type if provided but got: Int.'' []],
          twoDefectsSchema\<lparr>validationErrors :=
            Some [GraphQLError ''Query root type must be provided.'' [],
                  GraphQLError ''Mutation root type must be Object type if provided but got: Int.'' []]\<rparr>)"
    by (rule validateSchema_twoDefects)
  show ?thesis
    using h assertValidSchema_joins_messages [OF h] by (simp add: GraphQLError_def)
qed

section \<open>The interfaces of an Object type\<close>

lemma conformance_returns:
  assumes "renders i"
  shows "validateObjectImplementsInterface cmp c s t i =
           Inr \<lparr>errors = errors c @ conformanceErrors cmp s t i\<rparr>"
proof -
  have "\<exists>c'. validateObjectImplementsInterface cmp newSchemaValidationContext s t i = Inr c'"
    using assms
    by (cases i) (auto simp: validateObjectImplementsInterface_def renders_def)
  then obtain c' where c': "validateObjectImplementsInterface cmp newSchemaValidationContext s t i = Inr c'"
    by blast
  have "validateObjectImplementsInterface cmp c s t i =
      (case validateObjectImplementsInterface cmp newSchemaValidationContext s t i of
         Inl e \<Rightarrow> Inl e | Inr c' \<Rightarrow> Inr \<lparr>errors = errors c @ errors c'\<rparr>)"
    by (rule appendsE_D [OF appendsE_validateObjectImplementsInterface])
  then show ?thesis
    unfolding conformanceErrors_def c' by simp
qed

lemma conformance_throws:
  assumes "\<not> renders i"
  shows "validateObjectImplementsInterface cmp c s t i = Inl TypeError"
  using assms
  by (cases i) (auto simp: validateObjectImplementsInterface_def renders_def)

lemma forEach_validateInterface_values:
  assumes "list_all renders ifaces"
  shows "forEach (validateInterface cmp s t) (map Value ifaces) (c, seen) =
     Inr (\<lparr>errors = errors c @ concat (map (\<lambda>k.
              (if interfaceKey (ifaces ! k) \<in> seen \<union> set (map interfaceKey (take k ifaces))
               then [onlyOnceError t (ifaces ! k)] else [])
              @ conformanceErrors cmp s t (ifaces ! k))
            [0..<length ifaces])\<rparr>,
          seen \<union> set (map interfaceKey ifaces))"
  using assms
proof (induction ifaces arbitrary: c seen)
  case Nil
  show ?case by simp
next
  case (Cons i ifaces)
  have i: "renders i" and rest: "list_all renders ifaces"
    using Cons.prems by simp_all
  have e0: "errors newSchemaValidationContext = []"
    by (simp add: newSchemaValidationContext_def)
  have step: "forEach (validateInterface cmp s t) (map Value (i # ifaces)) (c, seen) =
     Inr (\<lparr>errors = errors c @ ((if interfaceKey i \<in> seen then [onlyOnceError t i] else [])
                                   @ conformanceErrors cmp s t i)
            @ concat (map (\<lambda>k. (if interfaceKey (ifaces ! k)
                         \<in> insert (interfaceKey i) seen \<union> set (map interfaceKey (take k ifaces))
                       then [onlyOnceError t (ifaces ! k)] else [])
                      @ conformanceErrors cmp s t (ifaces ! k))
              [0..<length ifaces])\<rparr>,
          insert (interfaceKey i) seen \<union> set (map interfaceKey ifaces))"
    unfolding list.map forEach.simps validateInterface_Value
      conformance_returns [OF i, of cmp newSchemaValidationContext s t] andThen_Inr sum.case
      Cons.IH [OF rest]
    by (simp only: SchemaValidationContext.select_convs append_assoc e0 append_Nil)
  show ?case
    unfolding step
    apply (simp add: map_upt_Suc del: upt_Suc)
    apply (rule arg_cong [where f = concat])
    apply (rule map_cong)
     apply auto
    done
qed

lemma forEach_validateInterface_returns:
  "forEach (validateInterface cmp s t) (map Value ifaces) st = Inr st' \<Longrightarrow> list_all renders ifaces"
proof (induction ifaces arbitrary: st)
  case Nil
  show ?case by simp
next
  case (Cons i ifaces)
  show ?case
  proof (cases "renders i")
    case True
    obtain c seen where st: "st = (c, seen)" by (cases st)
    have "validateInterface cmp s t (Value i) st =
        Inr (\<lparr>errors = errors c @ (if interfaceKey i \<in> seen then [onlyOnceError t i] else [])
                          @ conformanceErrors cmp s t i\<rparr>,
             insert (interfaceKey i) seen)"
      unfolding st validateInterface_Value
        conformance_returns [OF True, of cmp newSchemaValidationContext s t]
      by (simp add: newSchemaValidationContext_def)
    then have "list_all renders ifaces"
      using Cons.prems Cons.IH by simp
    with True show ?thesis by simp
  next
    case False
    obtain c seen where st: "st = (c, seen)" by (cases st)
    have "validateInterface cmp s t (Value i) st = Inl TypeError"
      unfolding st validateInterface_Value conformance_throws [OF False] by simp
    then show ?thesis using Cons.prems by simp
  qed
qed


lemma duplicate_positions:
  "length (filter (\<lambda>k. ks ! k = K \<and> K \<in> set (take k ks)) [0..<length ks]) = count_list ks K - 1"
proof (induction ks rule: rev_induct)
  case Nil
  show ?case by simp
next
  case (snoc x ks)
  define P where "P = (\<lambda>k. (ks @ [x]) ! k = K \<and> K \<in> set (take k (ks @ [x])))"
  define Q where "Q = (\<lambda>k. ks ! k = K \<and> K \<in> set (take k ks))"
  have PQ: "filter P [0..<length ks] = filter Q [0..<length ks]"
    by (rule filter_cong) (auto simp: P_def Q_def nth_append)
  have Pn: "P (length ks) = (x = K \<and> K \<in> set ks)"
    by (simp add: P_def)
  have pos: "(0 < count_list ks K) = (K \<in> set ks)"
    using count_list_0_iff [of ks K] by auto
  have "length (filter P [0..<length (ks @ [x])]) =
        length (filter Q [0..<length ks]) + (if x = K \<and> K \<in> set ks then 1 else 0)"
    by (simp add: PQ Pn)
  also have "\<dots> = (count_list ks K - 1) + (if x = K \<and> K \<in> set ks then 1 else 0)"
    using snoc.IH by (simp add: Q_def)
  also have "\<dots> = count_list (ks @ [x]) K - 1"
    using pos by auto
  finally show ?case
    unfolding P_def .
qed




lemma forEach_append:
  "forEach h (xs @ ys) st = andThen (forEach h xs st) (forEach h ys)"
  by (induction xs arbitrary: st) (simp_all add: andThen_def split: sum.splits)

lemma interface_reference_nodes:
  "nodes (onlyOnceError t i) =
       map (\<lambda>n. Some (NamedTypeNode n))
         (filter (\<lambda>n. Some (ntn_name n) = implementedName i)
            (concat (map (\<lambda>d. case td_interfaces d of None \<Rightarrow> [] | Some l \<Rightarrow> l)
                       ((case astNode t of None \<Rightarrow> [] | Some a \<Rightarrow> [a])
                        @ (case extensionASTNodes t of None \<Rightarrow> [] | Some es \<Rightarrow> es)))))"
proof -
  have flat: "concat (map (\<lambda>a. case a of None \<Rightarrow> []
                       | Some n \<Rightarrow> (case td_interfaces n of None \<Rightarrow> []
                                    | Some l \<Rightarrow> filter (\<lambda>node. Some (ntn_name node) = nm) l))
                 (map Some ds)) =
        filter (\<lambda>n. Some (ntn_name n) = nm)
            (concat (map (\<lambda>d. case td_interfaces d of None \<Rightarrow> [] | Some l \<Rightarrow> l) ds))"
    for ds :: "type_definition_node list" and nm
    by (induction ds) (simp_all split: option.splits)
  show ?thesis
  proof (cases "astNode t")
    case None
    then show ?thesis
      using flat [of "implementedName i" "case extensionASTNodes t of None \<Rightarrow> [] | Some es \<Rightarrow> es"]
      by (simp add: onlyOnceError_def GraphQLError_def getAllImplementsInterfaceNode_def
          declarationNodes_def split: option.splits)
  next
    case (Some a)
    then show ?thesis
      using flat [of "implementedName i" "a # (case extensionASTNodes t of None \<Rightarrow> [] | Some es \<Rightarrow> es)"]
      by (simp add: onlyOnceError_def GraphQLError_def getAllImplementsInterfaceNode_def
          declarationNodes_def split: option.splits)
  qed
qed

text \<open>
  C4. When the walk over the type map returns, its diagnostics for an Object type
  of the map stand between those of the entries before it and those of the entries
  after it, and they hold the duplicate diagnostic at exactly the positions of the
  interface list whose name occurs at an earlier position. For a name that occurs
  \<open>N\<close> times these are \<open>N - 1\<close> positions, one for each occurrence after the first.
  The nodes of the diagnostic are all the interface references of that name in the
  definition node of the type and in its extension nodes, in order.
\<close>

theorem only_once_diagnostics:
  assumes "getTypeMap s = pre @ (typeName, Value (GraphQLObjectType t)) # post"
      and "getInterfaces t = map Value ifaces"
      and "validateTypes cmp ctx s = Inr ctx'"
  shows "(\<exists>before after.
            forEach (validateType cmp s) pre ctx = Inr before
            \<and> forEach (validateType cmp s) post newSchemaValidationContext = Inr after
            \<and> errors ctx' =
                errors before
                @ concat (map (\<lambda>k.
                     (if interfaceKey (ifaces ! k) \<in> set (map interfaceKey (take k ifaces))
                      then [onlyOnceError t (ifaces ! k)] else [])
                     @ conformanceErrors cmp s t (ifaces ! k))
                   [0..<length ifaces])
                @ errors after)
   \<and> length (filter (\<lambda>k. interfaceKey (ifaces ! k) = K
                          \<and> interfaceKey (ifaces ! k) \<in> set (map interfaceKey (take k ifaces)))
               [0..<length ifaces])
       = count_list (map interfaceKey ifaces) K - 1
   \<and> nodes (onlyOnceError t i) =
       map (\<lambda>n. Some (NamedTypeNode n))
         (filter (\<lambda>n. Some (ntn_name n) = implementedName i)
            (concat (map (\<lambda>d. case td_interfaces d of None \<Rightarrow> [] | Some l \<Rightarrow> l)
                       ((case astNode t of None \<Rightarrow> [] | Some a \<Rightarrow> [a])
                        @ (case extensionASTNodes t of None \<Rightarrow> [] | Some es \<Rightarrow> es)))))"
proof (intro conjI)
  let ?V = "validateType cmp s"
  let ?e = "(typeName, Value (GraphQLObjectType t))"
  have run: "andThen (forEach ?V pre ctx) (\<lambda>c. andThen (?V ?e c) (forEach ?V post)) = Inr ctx'"
    using assms(3) unfolding validateTypes_def assms(1) forEach_append forEach_andThen [abs_def] .
  obtain before where before: "forEach ?V pre ctx = Inr before"
    using run by (cases "forEach ?V pre ctx") simp_all
  obtain mid where mid: "?V ?e before = Inr mid"
    using run before by (cases "?V ?e before") simp_all
  have post: "forEach ?V post mid = Inr ctx'"
    using run before mid by simp
  have "forEach ?V post mid =
      (case forEach ?V post newSchemaValidationContext of
         Inl e \<Rightarrow> Inl e | Inr c' \<Rightarrow> Inr \<lparr>errors = errors mid @ errors c'\<rparr>)"
    by (rule appendsE_D [OF appendsE_forEach, OF appendsE_validateType])
  then obtain after where after: "forEach ?V post newSchemaValidationContext = Inr after"
    and ctx': "errors ctx' = errors mid @ errors after"
    using post by (cases "forEach ?V post newSchemaValidationContext") auto
  have loop: "andThen (forEach (validateInterface cmp s t) (map Value ifaces) (before, {}))
                (\<lambda>st. Inr (fst st)) = Inr mid"
    using mid unfolding validateType_def Let_def snd_conv by (simp add: assms(2))
  then obtain st where st: "forEach (validateInterface cmp s t) (map Value ifaces) (before, {}) = Inr st"
    by (cases "forEach (validateInterface cmp s t) (map Value ifaces) (before, {})") simp_all
  have r: "list_all renders ifaces"
    using st by (rule forEach_validateInterface_returns)
  have "errors mid = errors before @ concat (map (\<lambda>k.
                     (if interfaceKey (ifaces ! k) \<in> set (map interfaceKey (take k ifaces))
                      then [onlyOnceError t (ifaces ! k)] else [])
                     @ conformanceErrors cmp s t (ifaces ! k))
                   [0..<length ifaces])"
    using loop unfolding forEach_validateInterface_values [OF r] by auto
  then show "\<exists>before after.
            forEach ?V pre ctx = Inr before
            \<and> forEach ?V post newSchemaValidationContext = Inr after
            \<and> errors ctx' =
                errors before
                @ concat (map (\<lambda>k.
                     (if interfaceKey (ifaces ! k) \<in> set (map interfaceKey (take k ifaces))
                      then [onlyOnceError t (ifaces ! k)] else [])
                     @ conformanceErrors cmp s t (ifaces ! k))
                   [0..<length ifaces])
                @ errors after"
    using before after ctx' by simp
next
  have "filter (\<lambda>k. interfaceKey (ifaces ! k) = K
                    \<and> interfaceKey (ifaces ! k) \<in> set (map interfaceKey (take k ifaces)))
               [0..<length ifaces] =
        filter (\<lambda>k. map interfaceKey ifaces ! k = K \<and> K \<in> set (take k (map interfaceKey ifaces)))
               [0..<length (map interfaceKey ifaces)]"
    by (rule filter_cong) (auto simp: take_map)
  then show "length (filter (\<lambda>k. interfaceKey (ifaces ! k) = K
                          \<and> interfaceKey (ifaces ! k) \<in> set (map interfaceKey (take k ifaces)))
               [0..<length ifaces])
       = count_list (map interfaceKey ifaces) K - 1"
    using duplicate_positions [of "map interfaceKey ifaces" K] by simp
next
  show "nodes (onlyOnceError t i) =
       map (\<lambda>n. Some (NamedTypeNode n))
         (filter (\<lambda>n. Some (ntn_name n) = implementedName i)
            (concat (map (\<lambda>d. case td_interfaces d of None \<Rightarrow> [] | Some l \<Rightarrow> l)
                       ((case astNode t of None \<Rightarrow> [] | Some a \<Rightarrow> [a])
                        @ (case extensionASTNodes t of None \<Rightarrow> [] | Some es \<Rightarrow> es)))))"
    by (rule interface_reference_nodes)
qed

lemma validateTypes_thriceSchema:
  "validateTypes structuralComparators newSchemaValidationContext thriceSchema =
     Inr \<lparr>errors =
            [GraphQLError ''Thrice must declare it implements Node only once.''
               [Some (NamedTypeNode \<lparr>ntn_loc = 2, ntn_name = ''Node''\<rparr>),
                Some (NamedTypeNode \<lparr>ntn_loc = 3, ntn_name = ''Node''\<rparr>),
                Some (NamedTypeNode \<lparr>ntn_loc = 6, ntn_name = ''Node''\<rparr>)],
             GraphQLError ''Thrice must declare it implements Node only once.''
               [Some (NamedTypeNode \<lparr>ntn_loc = 2, ntn_name = ''Node''\<rparr>),
                Some (NamedTypeNode \<lparr>ntn_loc = 3, ntn_name = ''Node''\<rparr>),
                Some (NamedTypeNode \<lparr>ntn_loc = 6, ntn_name = ''Node''\<rparr>)]]\<rparr>"
  by (simp add: evaluate thriceSchema_def thriceObject_def nodeInterface_def intScalar_def
      structuralComparators_def)

theorem only_once_diagnostics_witness:
  "getTypeMap thriceSchema =
     [(''Int'', Value (OtherType intScalar))]
     @ (''Thrice'', Value (GraphQLObjectType thriceObject))
     # [(''Node'', Value (GraphQLInterfaceType nodeInterface))] \<and>
   getInterfaces thriceObject =
     map Value [IsInterface nodeInterface, IsInterface nodeInterface, IsInterface nodeInterface] \<and>
   validateTypes structuralComparators newSchemaValidationContext thriceSchema =
     Inr \<lparr>errors =
            [GraphQLError ''Thrice must declare it implements Node only once.''
               [Some (NamedTypeNode \<lparr>ntn_loc = 2, ntn_name = ''Node''\<rparr>),
                Some (NamedTypeNode \<lparr>ntn_loc = 3, ntn_name = ''Node''\<rparr>),
                Some (NamedTypeNode \<lparr>ntn_loc = 6, ntn_name = ''Node''\<rparr>)],
             GraphQLError ''Thrice must declare it implements Node only once.''
               [Some (NamedTypeNode \<lparr>ntn_loc = 2, ntn_name = ''Node''\<rparr>),
                Some (NamedTypeNode \<lparr>ntn_loc = 3, ntn_name = ''Node''\<rparr>),
                Some (NamedTypeNode \<lparr>ntn_loc = 6, ntn_name = ''Node''\<rparr>)]]\<rparr> \<and>
   length (filter (\<lambda>k. interfaceKey ([IsInterface nodeInterface, IsInterface nodeInterface,
                                        IsInterface nodeInterface] ! k) = ''Node''
                        \<and> interfaceKey ([IsInterface nodeInterface, IsInterface nodeInterface,
                                          IsInterface nodeInterface] ! k)
                          \<in> set (map interfaceKey
                                   (take k [IsInterface nodeInterface, IsInterface nodeInterface,
                                            IsInterface nodeInterface])))
             [0..<length [IsInterface nodeInterface, IsInterface nodeInterface,
                          IsInterface nodeInterface]]) = 2 \<and>
   nodes (onlyOnceError thriceObject (IsInterface nodeInterface)) =
     [Some (NamedTypeNode \<lparr>ntn_loc = 2, ntn_name = ''Node''\<rparr>),
      Some (NamedTypeNode \<lparr>ntn_loc = 3, ntn_name = ''Node''\<rparr>),
      Some (NamedTypeNode \<lparr>ntn_loc = 6, ntn_name = ''Node''\<rparr>)]"
proof -
  have h1: "getTypeMap thriceSchema =
     [(''Int'', Value (OtherType intScalar))]
     @ (''Thrice'', Value (GraphQLObjectType thriceObject))
     # [(''Node'', Value (GraphQLInterfaceType nodeInterface))]"
    by (simp add: thriceSchema_def)
  have h2: "getInterfaces thriceObject =
     map Value [IsInterface nodeInterface, IsInterface nodeInterface, IsInterface nodeInterface]"
    by (simp add: thriceObject_def)
  note h3 = validateTypes_thriceSchema
  note inst = only_once_diagnostics [OF h1 h2 h3, where K = "''Node''"
      and i = "IsInterface nodeInterface"]
  have key: "interfaceKey (IsInterface nodeInterface) = ''Node''"
    by (simp add: interfaceKey_def nodeInterface_def)
  have n: "count_list (map interfaceKey [IsInterface nodeInterface, IsInterface nodeInterface,
                                         IsInterface nodeInterface]) ''Node'' - 1 = 2"
    by (simp add: key)
  have nd: "nodes (onlyOnceError thriceObject (IsInterface nodeInterface)) =
     [Some (NamedTypeNode \<lparr>ntn_loc = 2, ntn_name = ''Node''\<rparr>),
      Some (NamedTypeNode \<lparr>ntn_loc = 3, ntn_name = ''Node''\<rparr>),
      Some (NamedTypeNode \<lparr>ntn_loc = 6, ntn_name = ''Node''\<rparr>)]"
    unfolding inst [THEN conjunct2, THEN conjunct2]
    by (simp add: thriceObject_def nodeInterface_def)
  show ?thesis
    unfolding inst [THEN conjunct2, THEN conjunct1] n
    using h1 h2 h3 nd by blast
qed

section \<open>The nodes of a diagnostic\<close>

lemma present_GraphQLError: "present (GraphQLError msg (filter (\<lambda>n. n \<noteq> None) ns))"
  by (simp add: present_def GraphQLError_def)

lemma present_reportError:
  "list_all present (errors c) \<Longrightarrow> list_all present (errors (reportError c msg ns))"
  by (simp add: errors_reportError present_def GraphQLError_def)

lemma present_if:
  "list_all present (errors a) \<Longrightarrow> list_all present (errors b) \<Longrightarrow>
   list_all present (errors (if p then a else b))"
  by simp

lemma present_fold:
  assumes "\<And>x c. list_all present (errors c) \<Longrightarrow> list_all present (errors (h x c))"
  shows "list_all present (errors c) \<Longrightarrow> list_all present (errors (fold h xs c))"
  by (induction xs arbitrary: c) (simp_all add: assms)

lemma present_validateInterfaceArg:
  "list_all present (errors c) \<Longrightarrow>
   list_all present (errors (validateInterfaceArg cmp object iface fieldName objectField ifaceArg c))"
  unfolding validateInterfaceArg_def Let_def
  by (cases "find (\<lambda>arg. arg_name arg = arg_name ifaceArg) (field_args objectField)")
     (simp_all only: option.case present_reportError present_if)

lemma present_validateObjectArg:
  "list_all present (errors c) \<Longrightarrow>
   list_all present (errors (validateObjectArg object iface fieldName ifaceField objectArg c))"
  unfolding validateObjectArg_def Let_def
  by (simp only: present_reportError present_if)

lemma present_validateInterfaceField:
  assumes "list_all present (errors c)"
  shows "list_all present (errors (validateInterfaceField cmp s object iface entry c))"
proof (cases "map_of (getFields object) (fst entry)")
  case None
  then show ?thesis
    unfolding validateInterfaceField_def Let_def
    by (simp only: option.case present_reportError [OF assms])
next
  case (Some objectField)
  have "list_all present (errors (if \<not> isTypeSubTypeOf cmp s (field_type objectField) (field_type (snd entry)) then
                    reportError c
                      (name iface @ ''.'' @ fst entry @ '' expects type ''
                         @ (dq @ typeToString (field_type (snd entry)) @ dq @ '' but ''
                              @ name object @ ''.'' @ fst entry @ '' is '')
                         @ (''type '' @ dq @ typeToString (field_type objectField) @ dq @ ''.''))
                      (Many [map_option TypeNode (getFieldTypeNode iface (fst entry)),
                             map_option TypeNode (getFieldTypeNode object (fst entry))])
                  else c))"
    using assms by (simp only: present_reportError present_if)
  then show ?thesis
    unfolding validateInterfaceField_def Let_def Some option.case
    by (intro present_fold present_validateObjectArg present_validateInterfaceArg)
qed

lemma andThen_InrD: "andThen r f = Inr y \<Longrightarrow> \<exists>v. r = Inr v \<and> f v = Inr y"
  by (cases r) simp_all

lemma present_rendered:
  assumes "andThen (String g v) (\<lambda>rendered. Inr (reportError c (m rendered) ns)) = Inr c'"
      and "list_all present (errors c)"
  shows "list_all present (errors c')"
proof -
  from andThen_InrD [OF assms(1)] obtain r where "c' = reportError c (m r) ns" by auto
  then show ?thesis using present_reportError [OF assms(2)] by simp
qed

lemma present_guarded:
  assumes "(if b then andThen (String g v) (\<lambda>rendered. Inr (reportError c (m rendered) ns))
            else Inr c) = Inr c'"
      and "list_all present (errors c)"
  shows "list_all present (errors c')"
proof (cases b)
  case True
  then show ?thesis using assms present_rendered [of g v c m ns c'] by simp
next
  case False
  then show ?thesis using assms by simp
qed

lemma present_validateObjectImplementsInterface:
  assumes "validateObjectImplementsInterface cmp c s object iface = Inr c'"
      and "list_all present (errors c)"
  shows "list_all present (errors c')"
proof (cases iface)
  case (IsInterface i)
  then have "c' = fold (validateInterfaceField cmp s object i) (getFields i) c"
    using assms(1) by (simp add: validateObjectImplementsInterface_def)
  then show ?thesis
    by (simp only: present_fold [OF present_validateInterfaceField assms(2)])
next
  case (NotInterface b)
  show ?thesis
    using assms(1) unfolding validateObjectImplementsInterface_def NotInterface implemented.case
    by (rule present_rendered) (rule assms(2))
qed

lemma present_validateInterface:
  assumes "validateInterface cmp s t iface st = Inr st'"
      and "list_all present (errors (fst st))"
  shows "list_all present (errors (fst st'))"
proof (cases iface)
  case Undefined
  then show ?thesis using assms(1) by (simp add: validateInterface_def)
next
  case Null
  then show ?thesis using assms(1) by (simp add: validateInterface_def)
next
  case (Value i)
  let ?pre = "if toPropertyKey (implementedName i) \<in> snd st then
                    reportError (fst st)
                      (name t @ '' must declare it implements ''
                         @ toPropertyKey (implementedName i) @ '' only once.'')
                      (Many (map (\<lambda>n. Some (NamedTypeNode n))
                               (getAllImplementsInterfaceNode t (implementedName i))))
                  else fst st"
  have pre: "list_all present (errors ?pre)"
    using assms(2) by (simp only: present_reportError present_if)
  have "andThen (validateObjectImplementsInterface cmp ?pre s t i)
          (\<lambda>context2. Inr (context2, insert (toPropertyKey (implementedName i)) (snd st))) = Inr st'"
    using assms(1) unfolding Value validateInterface_def Let_def nullable.case .
  from andThen_InrD [OF this] obtain c2
    where c2: "validateObjectImplementsInterface cmp ?pre s t i = Inr c2" and st': "fst st' = c2"
    by auto
  show ?thesis
    unfolding st' using c2 pre by (rule present_validateObjectImplementsInterface)
qed

lemma forEach_invariant:
  assumes "\<And>x st st'. h x st = Inr st' \<Longrightarrow> Q st \<Longrightarrow> Q st'"
  shows "forEach h xs st = Inr st' \<Longrightarrow> Q st \<Longrightarrow> Q st'"
proof (induction xs arbitrary: st)
  case Nil
  then show ?case by simp
next
  case (Cons x xs)
  then show ?case
    by (cases "h x st") (auto intro: assms)
qed

lemma validateType_InrD:
  assumes "validateType cmp s entry c = Inr c'"
  shows "\<exists>c1. (if \<not> isType (snd entry) then
                andThen (String valueToString (snd entry))
                  (\<lambda>rendered.
                     Inr (reportError c
                            (''Expected GraphQL type but got: '' @ rendered @ ''.'')
                            (Single (andAstNode valueAstNode (snd entry)))))
              else Inr c) = Inr c1
           \<and> (case snd entry of
                 Value (GraphQLObjectType ot) \<Rightarrow>
                   \<exists>st. forEach (validateInterface cmp s ot) (getInterfaces ot) (c1, {}) = Inr st
                        \<and> c' = fst st
               | _ \<Rightarrow> c' = c1)"
proof -
  from andThen_InrD [OF assms [unfolded validateType_def Let_def]]
  obtain c1 where c1: "(if \<not> isType (snd entry) then
                andThen (String valueToString (snd entry))
                  (\<lambda>rendered.
                     Inr (reportError c
                            (''Expected GraphQL type but got: '' @ rendered @ ''.'')
                            (Single (andAstNode valueAstNode (snd entry)))))
              else Inr c) = Inr c1"
    and rest: "(case snd entry of
             Value (GraphQLObjectType ot) \<Rightarrow>
               andThen (forEach (validateInterface cmp s ot) (getInterfaces ot) (c1, {}))
                 (\<lambda>st. Inr (fst st))
           | _ \<Rightarrow> Inr c1) = Inr c'"
    by blast
  have "case snd entry of
                 Value (GraphQLObjectType ot) \<Rightarrow>
                   \<exists>st. forEach (validateInterface cmp s ot) (getInterfaces ot) (c1, {}) = Inr st
                        \<and> c' = fst st
               | _ \<Rightarrow> c' = c1"
    using rest
    by (auto split: nullable.splits gql_value.splits dest!: andThen_InrD)
  with c1 show ?thesis by blast
qed

lemma present_validateType:
  assumes "validateType cmp s entry c = Inr c'"
      and "list_all present (errors c)"
  shows "list_all present (errors c')"
proof -
  from validateType_InrD [OF assms(1)] obtain c1
    where c1: "(if \<not> isType (snd entry) then
                andThen (String valueToString (snd entry))
                  (\<lambda>rendered.
                     Inr (reportError c
                            (''Expected GraphQL type but got: '' @ rendered @ ''.'')
                            (Single (andAstNode valueAstNode (snd entry)))))
              else Inr c) = Inr c1"
      and rest: "case snd entry of
                 Value (GraphQLObjectType ot) \<Rightarrow>
                   \<exists>st. forEach (validateInterface cmp s ot) (getInterfaces ot) (c1, {}) = Inr st
                        \<and> c' = fst st
               | _ \<Rightarrow> c' = c1"
    by blast
  have pre: "list_all present (errors c1)"
    using c1 assms(2) by (rule present_guarded)
  show ?thesis
  proof (cases "\<exists>ot. snd entry = Value (GraphQLObjectType ot)")
    case True
    then obtain ot where ot: "snd entry = Value (GraphQLObjectType ot)" by blast
    from rest obtain st
      where st: "forEach (validateInterface cmp s ot) (getInterfaces ot) (c1, {}) = Inr st"
        and c': "c' = fst st"
      unfolding ot by auto
    have "list_all present (errors (fst st))"
    proof (rule forEach_invariant [where Q = "\<lambda>st. list_all present (errors (fst st))", OF _ st])
      fix x and a b :: "SchemaValidationContext \<times> string set"
      assume "validateInterface cmp s ot x a = Inr b" and "list_all present (errors (fst a))"
      then show "list_all present (errors (fst b))"
        by (rule present_validateInterface)
    next
      show "list_all present (errors (fst (c1, {})))"
        unfolding fst_conv by (rule pre)
    qed
    then show ?thesis by (simp add: c')
  next
    case False
    then have "c' = c1"
      using rest by (auto split: nullable.splits gql_value.splits)
    then show ?thesis using pre by simp
  qed
qed

lemma present_validateTypes:
  assumes "validateTypes cmp c s = Inr c'"
      and "list_all present (errors c)"
  shows "list_all present (errors c')"
  by (rule forEach_invariant [where Q = "\<lambda>c. list_all present (errors c)",
        OF _ assms(1) [unfolded validateTypes_def] assms(2)])
     (rule present_validateType)

lemma present_validateRootTypes:
  assumes "validateRootTypes c s = Inr c'"
      and "list_all present (errors c)"
  shows "list_all present (errors c')"
  using assms unfolding validateRootTypes_def
  by (auto simp: andThen_def present_reportError split: if_splits sum.splits)

lemma present_validateDirectives:
  assumes "validateDirectives c s = Inr c'"
      and "list_all present (errors c)"
  shows "list_all present (errors c')"
proof (rule forEach_invariant [where Q = "\<lambda>c. list_all present (errors c)",
        OF _ assms(1) [unfolded validateDirectives_def] assms(2)])
  fix x and a b :: SchemaValidationContext
  assume "validateDirective x a = Inr b" and "list_all present (errors a)"
  then show "list_all present (errors b)"
    unfolding validateDirective_def by (rule present_guarded)
qed

lemma declarationNodes_withoutSyntax: "withoutSyntax t \<Longrightarrow> declarationNodes t = [None]"
  by (simp add: withoutSyntax_def declarationNodes_def split: option.splits)

lemma getFieldNode_withoutSyntax: "withoutSyntax t \<Longrightarrow> getFieldNode t f = None"
  by (simp add: getFieldNode_def declarationNodes_withoutSyntax)

lemma getFieldTypeNode_withoutSyntax: "withoutSyntax t \<Longrightarrow> getFieldTypeNode t f = None"
  by (simp add: getFieldTypeNode_def getFieldNode_withoutSyntax)

lemma getFieldArgNode_withoutSyntax: "withoutSyntax t \<Longrightarrow> getFieldArgNode t f a = None"
  by (simp add: getFieldArgNode_def getFieldNode_withoutSyntax)

lemma getFieldArgTypeNode_withoutSyntax: "withoutSyntax t \<Longrightarrow> getFieldArgTypeNode t f a = None"
  by (simp add: getFieldArgTypeNode_def getFieldArgNode_withoutSyntax)

lemma getAllImplementsInterfaceNode_withoutSyntax:
  "withoutSyntax t \<Longrightarrow> getAllImplementsInterfaceNode t n = []"
  by (simp add: getAllImplementsInterfaceNode_def declarationNodes_withoutSyntax)

lemma getImplementsInterfaceNode_withoutSyntax:
  "withoutSyntax t \<Longrightarrow> getImplementsInterfaceNode t n = None"
  by (simp add: getImplementsInterfaceNode_def getAllImplementsInterfaceNode_withoutSyntax)

lemmas locate_withoutSyntax =
  getFieldNode_withoutSyntax getFieldTypeNode_withoutSyntax getFieldArgNode_withoutSyntax
  getFieldArgTypeNode_withoutSyntax getAllImplementsInterfaceNode_withoutSyntax
  getImplementsInterfaceNode_withoutSyntax

lemma unlocated_reportError:
  assumes "list_all unlocated (errors c)"
      and "list_all (\<lambda>n. n = None) (case ns of Single n \<Rightarrow> [n] | Many arr \<Rightarrow> arr)"
  shows "list_all unlocated (errors (reportError c msg ns))"
proof -
  have "filter (\<lambda>n. n \<noteq> None) xs = []" if "list_all (\<lambda>n. n = None) xs"
    for xs :: "ast_node option list"
    using that by (induction xs) simp_all
  then show ?thesis
    using assms by (simp add: errors_reportError unlocated_def GraphQLError_def split: nodes_arg.splits)
qed

lemma unlocated_if:
  "(p \<Longrightarrow> list_all unlocated (errors a)) \<Longrightarrow> (\<not> p \<Longrightarrow> list_all unlocated (errors b)) \<Longrightarrow>
   list_all unlocated (errors (if p then a else b))"
  by simp

lemma unlocated_fold:
  assumes "\<And>x c. list_all unlocated (errors c) \<Longrightarrow> list_all unlocated (errors (h x c))"
  shows "list_all unlocated (errors c) \<Longrightarrow> list_all unlocated (errors (fold h xs c))"
  by (induction xs arbitrary: c) (simp_all add: assms)

lemma unlocated_validateInterfaceArg:
  assumes "withoutSyntax object" and "withoutSyntax iface" and "list_all unlocated (errors c)"
  shows "list_all unlocated
           (errors (validateInterfaceArg cmp object iface fieldName objectField ifaceArg c))"
proof (cases "find (\<lambda>arg. arg_name arg = arg_name ifaceArg) (field_args objectField)")
  case None
  show ?thesis
    unfolding validateInterfaceArg_def Let_def None option.case
    by (rule unlocated_reportError [OF assms(3)])
       (simp add: locate_withoutSyntax assms(1,2))
next
  case (Some objectArg)
  show ?thesis
    unfolding validateInterfaceArg_def Let_def Some option.case
    by (rule unlocated_if, rule unlocated_reportError [OF assms(3)])
       (simp_all add: locate_withoutSyntax assms)
qed

lemma unlocated_validateObjectArg:
  assumes "withoutSyntax object" and "withoutSyntax iface" and "list_all unlocated (errors c)"
  shows "list_all unlocated
           (errors (validateObjectArg object iface fieldName ifaceField objectArg c))"
  unfolding validateObjectArg_def Let_def
  by (rule unlocated_if, rule unlocated_reportError [OF assms(3)])
     (simp_all add: locate_withoutSyntax assms)

lemma unlocated_validateInterfaceField:
  assumes "withoutSyntax object" and "withoutSyntax iface" and "list_all unlocated (errors c)"
  shows "list_all unlocated (errors (validateInterfaceField cmp s object iface entry c))"
proof (cases "map_of (getFields object) (fst entry)")
  case None
  show ?thesis
    unfolding validateInterfaceField_def Let_def None option.case
    by (rule unlocated_reportError [OF assms(3)])
       (simp add: locate_withoutSyntax assms(2) assms(1) [unfolded withoutSyntax_def])
next
  case (Some objectField)
  have "list_all unlocated (errors (if \<not> isTypeSubTypeOf cmp s (field_type objectField) (field_type (snd entry)) then
                    reportError c
                      (name iface @ ''.'' @ fst entry @ '' expects type ''
                         @ (dq @ typeToString (field_type (snd entry)) @ dq @ '' but ''
                              @ name object @ ''.'' @ fst entry @ '' is '')
                         @ (''type '' @ dq @ typeToString (field_type objectField) @ dq @ ''.''))
                      (Many [map_option TypeNode (getFieldTypeNode iface (fst entry)),
                             map_option TypeNode (getFieldTypeNode object (fst entry))])
                  else c))"
    by (rule unlocated_if, rule unlocated_reportError [OF assms(3)])
       (simp_all add: locate_withoutSyntax assms)
  then show ?thesis
    unfolding validateInterfaceField_def Let_def Some option.case
    by (intro unlocated_fold unlocated_validateObjectArg unlocated_validateInterfaceArg assms(1,2))
qed

lemma unlocated_rendered:
  assumes "andThen (String g v) (\<lambda>rendered. Inr (reportError c (m rendered) ns)) = Inr c'"
      and "list_all unlocated (errors c)"
      and "list_all (\<lambda>n. n = None) (case ns of Single n \<Rightarrow> [n] | Many arr \<Rightarrow> arr)"
  shows "list_all unlocated (errors c')"
proof -
  from andThen_InrD [OF assms(1)] obtain r where "c' = reportError c (m r) ns" by auto
  then show ?thesis using unlocated_reportError [OF assms(2,3)] by simp
qed

lemma unlocated_guarded:
  assumes "(if b then andThen (String g v) (\<lambda>rendered. Inr (reportError c (m rendered) ns))
            else Inr c) = Inr c'"
      and "list_all unlocated (errors c)"
      and "list_all (\<lambda>n. n = None) (case ns of Single n \<Rightarrow> [n] | Many arr \<Rightarrow> arr)"
  shows "list_all unlocated (errors c')"
proof (cases b)
  case True
  then show ?thesis using assms unlocated_rendered [of g v c m ns c'] by simp
next
  case False
  then show ?thesis using assms by simp
qed

lemma unlocated_validateObjectImplementsInterface:
  assumes "withoutSyntax object"
      and "case iface of IsInterface it \<Rightarrow> withoutSyntax it | NotInterface b \<Rightarrow> True"
      and "validateObjectImplementsInterface cmp c s object iface = Inr c'"
      and "list_all unlocated (errors c)"
  shows "list_all unlocated (errors c')"
proof (cases iface)
  case (IsInterface it)
  then have it: "withoutSyntax it" using assms(2) by simp
  have "c' = fold (validateInterfaceField cmp s object it) (getFields it) c"
    using assms(3) IsInterface by (simp add: validateObjectImplementsInterface_def)
  moreover have "list_all unlocated
      (errors (fold (validateInterfaceField cmp s object it) (getFields it) c))"
    by (intro unlocated_fold unlocated_validateInterfaceField assms(1,4) it)
  ultimately show ?thesis by simp
next
  case (NotInterface b)
  show ?thesis
    using assms(3) unfolding validateObjectImplementsInterface_def NotInterface implemented.case
    by (rule unlocated_rendered)
       (simp_all add: locate_withoutSyntax assms(1,4))
qed

lemma unlocated_validateInterface:
  assumes "withoutSyntax t"
      and "case iface of Value (IsInterface it) \<Rightarrow> withoutSyntax it | _ \<Rightarrow> True"
      and "validateInterface cmp s t iface st = Inr st'"
      and "list_all unlocated (errors (fst st))"
  shows "list_all unlocated (errors (fst st'))"
proof (cases iface)
  case Undefined
  then show ?thesis using assms(3) by (simp add: validateInterface_def)
next
  case Null
  then show ?thesis using assms(3) by (simp add: validateInterface_def)
next
  case (Value i)
  let ?pre = "if toPropertyKey (implementedName i) \<in> snd st then
                    reportError (fst st)
                      (name t @ '' must declare it implements ''
                         @ toPropertyKey (implementedName i) @ '' only once.'')
                      (Many (map (\<lambda>n. Some (NamedTypeNode n))
                               (getAllImplementsInterfaceNode t (implementedName i))))
                  else fst st"
  have i: "case i of IsInterface it \<Rightarrow> withoutSyntax it | NotInterface b \<Rightarrow> True"
    using assms(2) Value by simp
  have pre: "list_all unlocated (errors ?pre)"
    by (rule unlocated_if, rule unlocated_reportError [OF assms(4)])
       (simp_all add: locate_withoutSyntax assms(1,4))
  have "andThen (validateObjectImplementsInterface cmp ?pre s t i)
          (\<lambda>context2. Inr (context2, insert (toPropertyKey (implementedName i)) (snd st))) = Inr st'"
    using assms(3) unfolding Value validateInterface_def Let_def nullable.case .
  from andThen_InrD [OF this] obtain c2
    where c2: "validateObjectImplementsInterface cmp ?pre s t i = Inr c2" and st': "fst st' = c2"
    by auto
  show ?thesis
    unfolding st' using assms(1) i c2 pre by (rule unlocated_validateObjectImplementsInterface)
qed

lemma forEach_invariant_on:
  assumes "\<And>x st st'. x \<in> set xs \<Longrightarrow> h x st = Inr st' \<Longrightarrow> Q st \<Longrightarrow> Q st'"
  shows "forEach h xs st = Inr st' \<Longrightarrow> Q st \<Longrightarrow> Q st'"
  using assms
proof (induction xs arbitrary: st)
  case Nil
  then show ?case by simp
next
  case (Cons x xs)
  show ?case
  proof (cases "h x st")
    case (Inl e)
    then show ?thesis using Cons.prems(1) by simp
  next
    case (Inr st1)
    have "Q st1" using Cons.prems(3) [of x st st1] Inr Cons.prems(2) by simp
    moreover have "forEach h xs st1 = Inr st'" using Cons.prems(1) Inr by simp
    moreover have "\<And>y a b. y \<in> set xs \<Longrightarrow> h y a = Inr b \<Longrightarrow> Q a \<Longrightarrow> Q b"
      using Cons.prems(3) by (meson list.set_intros(2))
    ultimately show ?thesis
      using Cons.IH [of st1] by blast
  qed
qed

lemma unlocated_validateType:
  assumes "andAstNode valueAstNode (snd entry) = None"
      and "case snd entry of
             Value (GraphQLObjectType ot) \<Rightarrow>
               withoutSyntax ot
               \<and> list_all (\<lambda>i. case i of Value (IsInterface it) \<Rightarrow> withoutSyntax it | _ \<Rightarrow> True)
                    (getInterfaces ot)
           | _ \<Rightarrow> True"
      and "validateType cmp s entry c = Inr c'"
      and "list_all unlocated (errors c)"
  shows "list_all unlocated (errors c')"
proof -
  from validateType_InrD [OF assms(3)] obtain c1
    where c1: "(if \<not> isType (snd entry) then
                andThen (String valueToString (snd entry))
                  (\<lambda>rendered.
                     Inr (reportError c
                            (''Expected GraphQL type but got: '' @ rendered @ ''.'')
                            (Single (andAstNode valueAstNode (snd entry)))))
              else Inr c) = Inr c1"
      and rest: "case snd entry of
                 Value (GraphQLObjectType ot) \<Rightarrow>
                   \<exists>st. forEach (validateInterface cmp s ot) (getInterfaces ot) (c1, {}) = Inr st
                        \<and> c' = fst st
               | _ \<Rightarrow> c' = c1"
    by blast
  have pre: "list_all unlocated (errors c1)"
    using c1 assms(4) by (rule unlocated_guarded) (simp add: assms(1))
  show ?thesis
  proof (cases "\<exists>ot. snd entry = Value (GraphQLObjectType ot)")
    case True
    then obtain ot where ot: "snd entry = Value (GraphQLObjectType ot)" by blast
    have w: "withoutSyntax ot"
      and ws: "list_all (\<lambda>i. case i of Value (IsInterface it) \<Rightarrow> withoutSyntax it | _ \<Rightarrow> True)
                    (getInterfaces ot)"
      using assms(2) ot by simp_all
    from rest obtain st
      where st: "forEach (validateInterface cmp s ot) (getInterfaces ot) (c1, {}) = Inr st"
        and c': "c' = fst st"
      unfolding ot by auto
    have "list_all unlocated (errors (fst st))"
    proof (rule forEach_invariant_on [where Q = "\<lambda>st. list_all unlocated (errors (fst st))", OF _ st])
      fix x and a b :: "SchemaValidationContext \<times> string set"
      assume x: "x \<in> set (getInterfaces ot)"
        and "validateInterface cmp s ot x a = Inr b" and "list_all unlocated (errors (fst a))"
      moreover have "case x of Value (IsInterface it) \<Rightarrow> withoutSyntax it | _ \<Rightarrow> True"
        using ws x by (simp add: list_all_iff)
      ultimately show "list_all unlocated (errors (fst b))"
        using unlocated_validateInterface [OF w] by blast
    next
      show "list_all unlocated (errors (fst (c1, {})))"
        unfolding fst_conv by (rule pre)
    qed
    then show ?thesis by (simp add: c')
  next
    case False
    then have "c' = c1"
      using rest by (auto split: nullable.splits gql_value.splits)
    then show ?thesis using pre by simp
  qed
qed

lemma getOperationTypeNode_programmatic:
  "schemaAstNode s = None \<Longrightarrow> andAstNode valueAstNode t = None \<Longrightarrow>
   getOperationTypeNode s t operation = None"
  by (simp add: getOperationTypeNode_def)

lemma unlocated_validateRootTypes:
  assumes "programmatic s" and "validateRootTypes c s = Inr c'"
      and "list_all unlocated (errors c)"
  shows "list_all unlocated (errors c')"
proof -
  have a: "schemaAstNode s = None"
    and q: "andAstNode valueAstNode (getQueryType s) = None"
    and m: "andAstNode valueAstNode (getMutationType s) = None"
    and u: "andAstNode valueAstNode (getSubscriptionType s) = None"
    using assms(1) by (simp_all add: programmatic_def)
  show ?thesis
    using assms(2,3) unfolding validateRootTypes_def
    by (auto simp: andThen_def unlocated_reportError a
          getOperationTypeNode_programmatic [OF a q] getOperationTypeNode_programmatic [OF a m]
          getOperationTypeNode_programmatic [OF a u]
        split: if_splits sum.splits)
qed

lemma unlocated_validateDirectives:
  assumes "programmatic s" and "validateDirectives c s = Inr c'"
      and "list_all unlocated (errors c)"
  shows "list_all unlocated (errors c')"
proof (rule forEach_invariant_on [where Q = "\<lambda>c. list_all unlocated (errors c)",
        OF _ assms(2) [unfolded validateDirectives_def] assms(3)])
  fix x and a b :: SchemaValidationContext
  assume x: "x \<in> set (getDirectives s)"
    and run: "validateDirective x a = Inr b" and a: "list_all unlocated (errors a)"
  have "andAstNode directiveAstNode x = None"
    using assms(1) x unfolding programmatic_def list_all_iff by blast
  then show "list_all unlocated (errors b)"
    using unlocated_guarded [OF run [unfolded validateDirective_def] a] by simp
qed

lemma unlocated_validateTypes:
  assumes "programmatic s" and "validateTypes cmp c s = Inr c'"
      and "list_all unlocated (errors c)"
  shows "list_all unlocated (errors c')"
proof (rule forEach_invariant_on [where Q = "\<lambda>c. list_all unlocated (errors c)",
      OF _ assms(2) [unfolded validateTypes_def] assms(3)])
  fix entry and a b :: SchemaValidationContext
  assume entry: "entry \<in> set (getTypeMap s)"
    and run: "validateType cmp s entry a = Inr b" and a: "list_all unlocated (errors a)"
  have "andAstNode valueAstNode (snd entry) = None
        \<and> (case snd entry of
              Value (GraphQLObjectType ot) \<Rightarrow>
                withoutSyntax ot
                \<and> list_all (\<lambda>i. case i of Value (IsInterface it) \<Rightarrow> withoutSyntax it | _ \<Rightarrow> True)
                     (getInterfaces ot)
            | _ \<Rightarrow> True)"
    using assms(1) entry unfolding programmatic_def list_all_iff by blast
  then show "list_all unlocated (errors b)"
    using unlocated_validateType [OF _ _ run a] by blast
qed

lemma validateSchema_InrD:
  assumes "validationErrors s = None"
      and "validateSchema cmp (GraphQLSchema s) = Inr (errs, s')"
  shows "\<exists>c1 c2 c3. validateRootTypes newSchemaValidationContext s = Inr c1
            \<and> validateDirectives newSchemaValidationContext s = Inr c2
            \<and> validateTypes cmp newSchemaValidationContext s = Inr c3
            \<and> errs = errors c1 @ errors c2 @ errors c3"
  using assms(2) unfolding validateSchema_fresh [OF assms(1)]
  by (auto dest!: andThen_InrD)

lemma programmatic_unlocated:
  assumes "programmatic s" and "validationErrors s = None"
      and "validateSchema cmp (GraphQLSchema s) = Inr (errs, s')"
  shows "list_all unlocated errs"
proof -
  from validateSchema_InrD [OF assms(2,3)] obtain c1 c2 c3
    where c1: "validateRootTypes newSchemaValidationContext s = Inr c1"
      and c2: "validateDirectives newSchemaValidationContext s = Inr c2"
      and c3: "validateTypes cmp newSchemaValidationContext s = Inr c3"
      and errs: "errs = errors c1 @ errors c2 @ errors c3"
    by blast
  have e0: "list_all unlocated (errors newSchemaValidationContext)"
    by (simp add: newSchemaValidationContext_def)
  show ?thesis
    unfolding errs
    using unlocated_validateRootTypes [OF assms(1) c1 e0]
      unlocated_validateDirectives [OF assms(1) c2 e0]
      unlocated_validateTypes [OF assms(1) c3 e0]
    by simp
qed

lemma validateSchema_present:
  assumes "validationErrors s = None"
      and "validateSchema cmp (GraphQLSchema s) = Inr (errs, s')"
  shows "list_all present errs"
proof -
  from validateSchema_InrD [OF assms] obtain c1 c2 c3
    where c1: "validateRootTypes newSchemaValidationContext s = Inr c1"
      and c2: "validateDirectives newSchemaValidationContext s = Inr c2"
      and c3: "validateTypes cmp newSchemaValidationContext s = Inr c3"
      and errs: "errs = errors c1 @ errors c2 @ errors c3"
    by blast
  have e0: "list_all present (errors newSchemaValidationContext)"
    by (simp add: newSchemaValidationContext_def)
  show ?thesis
    unfolding errs
    using present_validateRootTypes [OF c1 e0] present_validateDirectives [OF c2 e0]
      present_validateTypes [OF c3 e0]
    by simp
qed

lemma programmatic_twoDefectsSchema: "programmatic twoDefectsSchema"
  by (simp add: programmatic_def twoDefectsSchema_def intScalar_def)

text \<open>
  C10. \<open>reportError\<close> makes an array of its second argument (a single node becomes
  a singleton, an array is taken as it is), removes the absent entries and adds one
  diagnostic with the remaining nodes: the diagnostic holds no absent node, and no
  node at all when every entry was absent. The root type check, the directive check
  and the type map check, when they return, keep the property that no diagnostic of
  the context holds an absent node, and so does every list that \<open>validateSchema\<close>
  computes. For a schema built without syntax information, every diagnostic of that
  list has an empty array of nodes.
\<close>

theorem diagnostics_hold_no_absent_node:
  "errors (reportError ctx msg ns) =
     errors ctx @ [GraphQLError msg (filter (\<lambda>n. n \<noteq> None)
                                       (case ns of Single n \<Rightarrow> [n] | Many arr \<Rightarrow> arr))]
   \<and> present (last (errors (reportError ctx msg ns)))
   \<and> (list_all (\<lambda>n. n = None) (case ns of Single n \<Rightarrow> [n] | Many arr \<Rightarrow> arr)
        \<longrightarrow> nodes (last (errors (reportError ctx msg ns))) = [])
   \<and> (list_all present (errors ctx) \<longrightarrow>
        (\<forall>ctx'. validateRootTypes ctx s = Inr ctx' \<longrightarrow> list_all present (errors ctx'))
        \<and> (\<forall>ctx'. validateDirectives ctx s = Inr ctx' \<longrightarrow> list_all present (errors ctx'))
        \<and> (\<forall>ctx'. validateTypes cmp ctx s = Inr ctx' \<longrightarrow> list_all present (errors ctx')))
   \<and> (validationErrors s = None \<and> validateSchema cmp (GraphQLSchema s) = Inr (errs, s')
        \<longrightarrow> list_all present errs)
   \<and> (programmatic s \<and> validationErrors s = None
        \<and> validateSchema cmp (GraphQLSchema s) = Inr (errs, s')
        \<longrightarrow> list_all unlocated errs)"
proof (intro conjI impI allI)
  show "list_all unlocated errs"
    if "programmatic s \<and> validationErrors s = None
        \<and> validateSchema cmp (GraphQLSchema s) = Inr (errs, s')"
    using that programmatic_unlocated by blast
  show "errors (reportError ctx msg ns) =
     errors ctx @ [GraphQLError msg (filter (\<lambda>n. n \<noteq> None)
                                       (case ns of Single n \<Rightarrow> [n] | Many arr \<Rightarrow> arr))]"
    by (simp add: errors_reportError split: nodes_arg.splits)
  show "present (last (errors (reportError ctx msg ns)))"
    by (simp add: errors_reportError present_def GraphQLError_def)
  show "nodes (last (errors (reportError ctx msg ns))) = []"
    if "list_all (\<lambda>n. n = None) (case ns of Single n \<Rightarrow> [n] | Many arr \<Rightarrow> arr)"
  proof -
    have "filter (\<lambda>n. n \<noteq> None) xs = []" if "list_all (\<lambda>n. n = None) xs"
      for xs :: "ast_node option list"
      using that by (induction xs) simp_all
    then show ?thesis
      using that by (simp add: errors_reportError GraphQLError_def split: nodes_arg.splits)
  qed
  show "list_all present (errors ctx')"
    if "list_all present (errors ctx)" and "validateRootTypes ctx s = Inr ctx'" for ctx'
    using that(2,1) by (rule present_validateRootTypes)
  show "list_all present (errors ctx')"
    if "list_all present (errors ctx)" and "validateDirectives ctx s = Inr ctx'" for ctx'
    using that(2,1) by (rule present_validateDirectives)
  show "list_all present (errors ctx')"
    if "list_all present (errors ctx)" and "validateTypes cmp ctx s = Inr ctx'" for ctx'
    using that(2,1) by (rule present_validateTypes)
  show "list_all present errs"
    if a: "validationErrors s = None \<and> validateSchema cmp (GraphQLSchema s) = Inr (errs, s')"
    using a validateSchema_present by blast
qed

lemma validateSchema_mixedSchema:
  "validateSchema structuralComparators (GraphQLSchema mixedSchema) =
     Inr ([GraphQLError (dq @ ''Node'' @ dq @ '' expects field '' @ dq @ ''id'' @ dq @ '' but ''
                        @ dq @ ''Plain'' @ dq @ '' does not provide it.'')
             [Some (FieldDefinitionNode
                \<lparr>fd_loc = 11, fd_name = ''id'',
                 fd_type = NamedTypeRef \<lparr>ntn_loc = 12, ntn_name = ''ID''\<rparr>,
                 fd_arguments = None\<rparr>)]],
          mixedSchema\<lparr>validationErrors := Some
            [GraphQLError (dq @ ''Node'' @ dq @ '' expects field '' @ dq @ ''id'' @ dq @ '' but ''
                        @ dq @ ''Plain'' @ dq @ '' does not provide it.'')
             [Some (FieldDefinitionNode
                \<lparr>fd_loc = 11, fd_name = ''id'',
                 fd_type = NamedTypeRef \<lparr>ntn_loc = 12, ntn_name = ''ID''\<rparr>,
                 fd_arguments = None\<rparr>)]]\<rparr>)"
  by (simp add: evaluate mixedSchema_def unlocatedObject_def locatedInterface_def)

theorem diagnostics_hold_no_absent_node_witness:
  "validationErrors mixedSchema = None \<and>
   validateSchema structuralComparators (GraphQLSchema mixedSchema) =
     Inr ([GraphQLError (dq @ ''Node'' @ dq @ '' expects field '' @ dq @ ''id'' @ dq @ '' but ''
                        @ dq @ ''Plain'' @ dq @ '' does not provide it.'')
             [Some (FieldDefinitionNode
                \<lparr>fd_loc = 11, fd_name = ''id'',
                 fd_type = NamedTypeRef \<lparr>ntn_loc = 12, ntn_name = ''ID''\<rparr>,
                 fd_arguments = None\<rparr>)]],
          mixedSchema\<lparr>validationErrors := Some
            [GraphQLError (dq @ ''Node'' @ dq @ '' expects field '' @ dq @ ''id'' @ dq @ '' but ''
                        @ dq @ ''Plain'' @ dq @ '' does not provide it.'')
             [Some (FieldDefinitionNode
                \<lparr>fd_loc = 11, fd_name = ''id'',
                 fd_type = NamedTypeRef \<lparr>ntn_loc = 12, ntn_name = ''ID''\<rparr>,
                 fd_arguments = None\<rparr>)]]\<rparr>) \<and>
   list_all present
     [GraphQLError (dq @ ''Node'' @ dq @ '' expects field '' @ dq @ ''id'' @ dq @ '' but ''
                        @ dq @ ''Plain'' @ dq @ '' does not provide it.'')
             [Some (FieldDefinitionNode
                \<lparr>fd_loc = 11, fd_name = ''id'',
                 fd_type = NamedTypeRef \<lparr>ntn_loc = 12, ntn_name = ''ID''\<rparr>,
                 fd_arguments = None\<rparr>)]] \<and>
   list_all (\<lambda>n. n = None) [None, None :: ast_node option] \<and>
   nodes (last (errors (reportError newSchemaValidationContext ''m'' (Many [None, None])))) = [] \<and>
   programmatic twoDefectsSchema \<and> validationErrors twoDefectsSchema = None \<and>
   validateSchema structuralComparators (GraphQLSchema twoDefectsSchema) =
     Inr ([GraphQLError ''Query root type must be provided.'' [],
           GraphQLError ''Mutation root type must be Object type if provided but got: Int.'' []],
          twoDefectsSchema\<lparr>validationErrors :=
            Some [GraphQLError ''Query root type must be provided.'' [],
                  GraphQLError ''Mutation root type must be Object type if provided but got: Int.'' []]\<rparr>) \<and>
   list_all unlocated
     [GraphQLError ''Query root type must be provided.'' [],
      GraphQLError ''Mutation root type must be Object type if provided but got: Int.'' []]"
proof -
  have p: "programmatic twoDefectsSchema \<and> validationErrors twoDefectsSchema = None \<and>
   validateSchema structuralComparators (GraphQLSchema twoDefectsSchema) =
     Inr ([GraphQLError ''Query root type must be provided.'' [],
           GraphQLError ''Mutation root type must be Object type if provided but got: Int.'' []],
          twoDefectsSchema\<lparr>validationErrors :=
            Some [GraphQLError ''Query root type must be provided.'' [],
                  GraphQLError ''Mutation root type must be Object type if provided but got: Int.'' []]\<rparr>)"
    using programmatic_twoDefectsSchema validateSchema_twoDefects
    by (simp add: twoDefectsSchema_def)
  note bare = diagnostics_hold_no_absent_node [where s = twoDefectsSchema
      and cmp = structuralComparators, THEN conjunct2, THEN conjunct2, THEN conjunct2,
      THEN conjunct2, THEN conjunct2, rule_format, OF p]
  have h: "validationErrors mixedSchema = None \<and>
   validateSchema structuralComparators (GraphQLSchema mixedSchema) =
     Inr ([GraphQLError (dq @ ''Node'' @ dq @ '' expects field '' @ dq @ ''id'' @ dq @ '' but ''
                        @ dq @ ''Plain'' @ dq @ '' does not provide it.'')
             [Some (FieldDefinitionNode
                \<lparr>fd_loc = 11, fd_name = ''id'',
                 fd_type = NamedTypeRef \<lparr>ntn_loc = 12, ntn_name = ''ID''\<rparr>,
                 fd_arguments = None\<rparr>)]],
          mixedSchema\<lparr>validationErrors := Some
            [GraphQLError (dq @ ''Node'' @ dq @ '' expects field '' @ dq @ ''id'' @ dq @ '' but ''
                        @ dq @ ''Plain'' @ dq @ '' does not provide it.'')
             [Some (FieldDefinitionNode
                \<lparr>fd_loc = 11, fd_name = ''id'',
                 fd_type = NamedTypeRef \<lparr>ntn_loc = 12, ntn_name = ''ID''\<rparr>,
                 fd_arguments = None\<rparr>)]]\<rparr>)"
    using validateSchema_mixedSchema by (simp add: mixedSchema_def)
  have k: "list_all (\<lambda>n. n = None) (case Many [None, None] of Single n \<Rightarrow> [n] | Many arr \<Rightarrow> arr)"
    by simp
  note inst = diagnostics_hold_no_absent_node [where s = mixedSchema and cmp = structuralComparators
      and ctx = newSchemaValidationContext and msg = "''m''" and ns = "Many [None, None]"]
  from inst [THEN conjunct2, THEN conjunct2, THEN conjunct2, THEN conjunct2, THEN conjunct1,
      rule_format, OF h]
    inst [THEN conjunct2, THEN conjunct2, THEN conjunct1, rule_format, OF k] h p bare
  show ?thesis by simp
qed

section \<open>When validation throws\<close>

lemma forEach_throws:
  assumes "\<And>x st. (\<exists>e. h x st = Inl e) = T x"
  shows "(\<exists>e. forEach h xs st = Inl e) = list_ex T xs"
proof (induction xs arbitrary: st)
  case Nil
  show ?case by simp
next
  case (Cons x xs)
  show ?case
  proof (cases "h x st")
    case (Inl e)
    then have "T x" using assms [of x st] by auto
    with Inl show ?thesis by simp
  next
    case (Inr st')
    then have "\<not> T x" using assms [of x st] by auto
    with Inr Cons.IH [of st'] show ?thesis by simp
  qed
qed

lemma String_throws: "(\<exists>e. String g v = Inl e) = (String g v = Inl TypeError)"
  by (cases v) (simp_all split: option.splits)

lemma rendered_throws:
  "(\<exists>e. andThen (String g v) (\<lambda>rendered. Inr (k rendered)) = Inl e) = (String g v = Inl TypeError)"
  unfolding String_throws [symmetric] by (cases "String g v") simp_all

lemma andThen_throws:
  "(\<exists>e. andThen r f = Inl e) = ((\<exists>e. r = Inl e) \<or> (\<exists>v. r = Inr v \<and> (\<exists>e. f v = Inl e)))"
  by (cases r) simp_all

lemma validateRootTypes_throws:
  "(\<exists>e. validateRootTypes c s = Inl e) =
     (unrenderedRoot (getQueryType s) \<or> unrenderedRoot (getMutationType s)
      \<or> unrenderedRoot (getSubscriptionType s))"
proof -
  let ?q = "if \<not> truthy (getQueryType s) then
          Inr (reportError c ''Query root type must be provided.''
                 (Single (map_option SchemaDefinitionNode (schemaAstNode s))))
        else if \<not> isObjectType (getQueryType s) then
          andThen (String valueToString (getQueryType s))
            (\<lambda>rendered.
               Inr (reportError c
                      (''Query root type must be Object type but got: '' @ rendered @ ''.'')
                      (Single (getOperationTypeNode s (getQueryType s) ''query''))))
        else Inr c"
  have q: "(\<exists>e. ?q = Inl e) = unrenderedRoot (getQueryType s)"
    unfolding unrenderedRoot_def by (simp add: rendered_throws)
  have m: "(\<exists>e. (if truthy (getMutationType s) \<and> \<not> isObjectType (getMutationType s) then
               andThen (String valueToString (getMutationType s))
                 (\<lambda>rendered.
                    Inr (reportError c1
                           (''Mutation root type must be Object type if provided but got: ''
                              @ (rendered @ ''.''))
                           (Single (getOperationTypeNode s (getMutationType s) ''mutation''))))
             else Inr c1) = Inl e) = unrenderedRoot (getMutationType s)" for c1
    unfolding unrenderedRoot_def by (simp add: rendered_throws)
  have u: "(\<exists>e. (if truthy (getSubscriptionType s) \<and> \<not> isObjectType (getSubscriptionType s) then
                 andThen (String valueToString (getSubscriptionType s))
                   (\<lambda>rendered.
                      Inr (reportError c2
                             (''Subscription root type must be Object type if provided but got: ''
                                @ (rendered @ ''.''))
                             (Single (getOperationTypeNode s (getSubscriptionType s)
                                        ''subscription''))))
               else Inr c2) = Inl e) = unrenderedRoot (getSubscriptionType s)" for c2
    unfolding unrenderedRoot_def by (simp add: rendered_throws)
  show ?thesis
  proof (cases ?q)
    case (Inl e)
    have "unrenderedRoot (getQueryType s)"
      using q Inl by blast
    moreover have "validateRootTypes c s = Inl e"
      unfolding validateRootTypes_def Inl by simp
    ultimately show ?thesis by simp
  next
    case c1: (Inr c1)
    have nq: "\<not> unrenderedRoot (getQueryType s)"
      using q unfolding c1 by simp
    let ?m = "if truthy (getMutationType s) \<and> \<not> isObjectType (getMutationType s) then
               andThen (String valueToString (getMutationType s))
                 (\<lambda>rendered.
                    Inr (reportError c1
                           (''Mutation root type must be Object type if provided but got: ''
                              @ (rendered @ ''.''))
                           (Single (getOperationTypeNode s (getMutationType s) ''mutation''))))
             else Inr c1"
    show ?thesis
    proof (cases ?m)
      case (Inl e)
      have "unrenderedRoot (getMutationType s)"
        using m [of c1] Inl by blast
      moreover have "validateRootTypes c s = Inl e"
        unfolding validateRootTypes_def c1 andThen_Inr Inl by simp
      ultimately show ?thesis by simp
    next
      case c2: (Inr c2)
      have nm: "\<not> unrenderedRoot (getMutationType s)"
        using m [of c1] unfolding c2 by simp
      have "validateRootTypes c s =
          (if truthy (getSubscriptionType s) \<and> \<not> isObjectType (getSubscriptionType s) then
                 andThen (String valueToString (getSubscriptionType s))
                   (\<lambda>rendered.
                      Inr (reportError c2
                             (''Subscription root type must be Object type if provided but got: ''
                                @ (rendered @ ''.''))
                             (Single (getOperationTypeNode s (getSubscriptionType s)
                                        ''subscription''))))
               else Inr c2)"
        unfolding validateRootTypes_def c1 andThen_Inr c2 ..
      then show ?thesis
        using u [of c2] nq nm by simp
    qed
  qed
qed

lemma validateDirective_throws:
  "(\<exists>e. validateDirective d c = Inl e) = unrenderedDirective d"
  unfolding validateDirective_def unrenderedDirective_def
  by (simp add: rendered_throws)

lemma validateDirectives_throws:
  "(\<exists>e. validateDirectives c s = Inl e) = list_ex unrenderedDirective (getDirectives s)"
  unfolding validateDirectives_def
  by (rule forEach_throws) (rule validateDirective_throws)

lemma validateInterface_throws:
  "(\<exists>e. validateInterface cmp s t iface st = Inl e) = interfaceThrows iface"
proof (cases iface)
  case Undefined
  then show ?thesis by (simp add: validateInterface_def interfaceThrows_def)
next
  case Null
  then show ?thesis by (simp add: validateInterface_def interfaceThrows_def)
next
  case (Value i)
  obtain c seen where st: "st = (c, seen)" by (cases st)
  show ?thesis
  proof (cases "renders i")
    case True
    show ?thesis
      unfolding Value st validateInterface_Value conformance_returns [OF True]
      using True by (simp add: interfaceThrows_def)
  next
    case False
    show ?thesis
      unfolding Value st validateInterface_Value conformance_throws [OF False]
      using False by (simp add: interfaceThrows_def)
  qed
qed

lemma validateType_throws:
  "(\<exists>e. validateType cmp s entry c = Inl e) = entryThrows entry"
proof -
  let ?pre = "if \<not> isType (snd entry) then
           andThen (String valueToString (snd entry))
             (\<lambda>rendered.
                Inr (reportError c
                       (''Expected GraphQL type but got: '' @ rendered @ ''.'')
                       (Single (andAstNode valueAstNode (snd entry)))))
         else Inr c"
  have pre: "(\<exists>e. ?pre = Inl e) =
      (\<not> isType (snd entry) \<and> String valueToString (snd entry) = Inl TypeError)"
    by (simp add: rendered_throws)
  have loop: "(\<exists>e. andThen (forEach (validateInterface cmp s ot) (getInterfaces ot) (c1, {}))
                 (\<lambda>st. Inr (fst st)) = Inl e) = list_ex interfaceThrows (getInterfaces ot)"
    for ot c1
    unfolding andThen_throws
    using forEach_throws [of "validateInterface cmp s ot" interfaceThrows "getInterfaces ot" "(c1, {})",
        OF validateInterface_throws]
    by simp
  have rest: "(\<exists>e. (case snd entry of
             Value (GraphQLObjectType ot) \<Rightarrow>
               andThen (forEach (validateInterface cmp s ot) (getInterfaces ot) (c1, {}))
                 (\<lambda>st. Inr (fst st))
           | _ \<Rightarrow> Inr c1) = Inl e) =
        (case snd entry of
            Value (GraphQLObjectType ot) \<Rightarrow> list_ex interfaceThrows (getInterfaces ot)
          | _ \<Rightarrow> False)" for c1
    using loop by (simp split: nullable.splits gql_value.splits)
  have ex: "(\<exists>v. r = Inr v) = (\<not> (\<exists>e. r = Inl e))" for r :: "js_error + SchemaValidationContext"
    by (cases r) simp_all
  show ?thesis
    unfolding validateType_def Let_def andThen_throws rest entryThrows_def
    by (simp only: ex_simps ex pre) blast
qed

lemma validateTypes_throws:
  "(\<exists>e. validateTypes cmp c s = Inl e) = list_ex entryThrows (getTypeMap s)"
  unfolding validateTypes_def
  by (rule forEach_throws) (rule validateType_throws)

lemma validateSchema_throws:
  "(\<exists>e. validateSchema cmp input = Inl e) =
     (case input of
        GraphQLSchema s \<Rightarrow> validationErrors s = None \<and> checksThrow s
      | _ \<Rightarrow> True)"
proof (cases input)
  case Falsy
  then show ?thesis by (simp add: validateSchema_def)
next
  case (NotSchema c r)
  then show ?thesis by (cases c; cases r) (simp_all add: validateSchema_def)
next
  case (GraphQLSchema s)
  show ?thesis
  proof (cases "validationErrors s")
    case None
    have ex: "(\<exists>v. r = Inr v) = (\<not> (\<exists>e. r = Inl e))" for r :: "js_error + SchemaValidationContext"
      by (cases r) simp_all
    have "(\<exists>e. validateSchema cmp (GraphQLSchema s) = Inl e) = checksThrow s"
      unfolding validateSchema_fresh [OF None] andThen_throws checksThrow_def
      by (simp only: ex_simps ex validateRootTypes_throws validateDirectives_throws
            validateTypes_throws sum.distinct simp_thms) blast
    then show ?thesis
      unfolding GraphQLSchema by (simp add: None)
  next
    case (Some stored)
    then show ?thesis by (simp add: GraphQLSchema validateSchema_def)
  qed
qed

lemma query_root_type_absent:
  assumes "\<not> truthy (getQueryType s)" and "validateRootTypes ctx s = Inr ctx'"
  shows "\<exists>rest. errors ctx' =
           errors ctx @ GraphQLError ''Query root type must be provided.''
                          (filter (\<lambda>n. n \<noteq> None)
                             [map_option SchemaDefinitionNode (schemaAstNode s)]) # rest"
proof -
  let ?c0 = "reportError ctx ''Query root type must be provided.''
                 (Single (map_option SchemaDefinitionNode (schemaAstNode s)))"
  have c0: "errors ?c0 = errors ctx @ [GraphQLError ''Query root type must be provided.''
                          (filter (\<lambda>n. n \<noteq> None)
                             [map_option SchemaDefinitionNode (schemaAstNode s)])]"
    by (simp add: errors_reportError)
  have "\<exists>rest. errors ctx' = errors ?c0 @ rest"
    using assms unfolding validateRootTypes_def
    by (auto simp: andThen_def errors_reportError split: if_splits sum.splits)
  then show ?thesis
    unfolding c0 by auto
qed

text \<open>
  C7. The three root type checks should each add their diagnostic and let the next
  one run. When the query root type is a value that is not an Object type and that
  \<open>String\<close> cannot render, an object without \<open>toString\<close>, building the message of its
  diagnostic throws a TypeError: the check of the root types adds no diagnostic,
  and the mutation and subscription slots are not looked at, whatever they hold.
\<close>

theorem unrendered_query_root_is_fatal:
  "validateRootTypes newSchemaValidationContext nullPrototypeQuerySchema = Inl TypeError
   \<and> validateRootTypes ctx (s\<lparr>getQueryType := Value (NotAType nullPrototypeObject)\<rparr>)
       = Inl TypeError"
  by (simp add: validateRootTypes_def nullPrototypeQuerySchema_def nullPrototypeObject_def)

text \<open>
  C8. \<open>validateSchema\<close> should return the diagnostics of every genuine schema. On a
  genuine schema whose query root type is an object without \<open>toString\<close>, it throws
  a TypeError instead, and so does \<open>assertValidSchema\<close>: the defect of the schema
  is found, and the exception comes from building the message that would report it.
  Nothing is stored on the schema, so every later call throws again.
\<close>

theorem unrendered_query_root_throws:
  "validateSchema structuralComparators (GraphQLSchema nullPrototypeQuerySchema) = Inl TypeError
   \<and> assertValidSchema structuralComparators (GraphQLSchema nullPrototypeQuerySchema)
       = Inl TypeError
   \<and> validateSchema cmp
         (GraphQLSchema (s\<lparr>getQueryType := Value (NotAType nullPrototypeObject),
                            validationErrors := None\<rparr>)) = Inl TypeError"
  by (simp add: validateSchema_def assertValidSchema_def validateRootTypes_def
      nullPrototypeQuerySchema_def nullPrototypeObject_def)

end
